theory Spec2Isabelle
  imports Complex_Main "HOL-Library.AList"
begin

text \<open>
  A shallow embedding of two modules of abipy's workflow toolkit:
  \<^item> \<open>abipy/flowtk/dfpt_works.py\<close>: \<open>ElasticWork.from_scf_input\<close>, which builds the Work for
    the elastic and piezoelectric tensors, and \<open>ElasticWork.on_all_ok\<close>, its finishing action;
  \<^item> \<open>abipy/flowtk/eph_flows.py\<close>: \<open>GkqPathFlow.from_scf_input\<close>, which builds the Flow for
    the electron-phonon matrix elements along a q-path.
  A Python exception is a result \<open>Inl e\<close>; a Work or a Flow that a method mutates is passed in
  and returned. The classes and methods of \<open>works.py\<close>, \<open>flows.py\<close> and of the input object
  that the two modules call are modelled from the spec or taken as parameters, as said at
  each of them.
\<close>

section \<open>Values, inputs, nodes and dependencies\<close>

text \<open>
  Python numbers are carried by their numeric value: \<open>0 == 0.0\<close> holds in Python, and two
  tuples of finite numbers are equal exactly when their components have the same values.
  A variable of an input holds a number or a sequence of numbers.
\<close>

datatype pyval = Num rat | Seq "rat list"

type_synonym qpoint = "rat list"

text \<open>An input file: the dictionary of its variables.\<close>

type_synonym abinit_input = "string \<rightharpoonup> pyval"

text \<open>A dict of tolerances such as \<open>{"nscf": {"tolwfr": 1e-20}}\<close>.\<close>

type_synonym tolerance = "string \<rightharpoonup> pyval"

datatype pyerror = NameError string | KeyError string | IndexError | TypeError | RuntimeError string

text \<open>
  A node is a Task (the work that owns it and its index there) or a Work.
\<close>

datatype node = TaskRef nat nat | WorkRef nat

text \<open>
  The keys and values of a \<open>deps\<close> dict are Python objects: a node, a string or a list of
  strings. A dict is the list of its items in insertion order.
\<close>

datatype pyobj = Obj node | Str string | StrList "string list"

type_synonym pydict = "(pyobj \<times> pyobj) list"

text \<open>\<open>d.update(other)\<close>: a key already present keeps its place and takes the new value.\<close>

definition dict_update :: "pydict \<Rightarrow> pydict \<Rightarrow> pydict" where
  "dict_update d other = fold (\<lambda>(k, v) acc. AList.update k v acc) other d"

text \<open>A dict display or comprehension: the items are stored one after the other.\<close>

definition dict_of :: "(pyobj \<times> pyobj) list \<Rightarrow> pydict" where
  "dict_of items = dict_update [] items"

datatype task_kind = ScfTask | NscfTask | DdkTask | DdeTask | PhononTask | ElasticTask | EphTask

datatype task_status = Init | Ready | Running | Succeeded | Failed

record task =
  kind :: task_kind
  input :: abinit_input
  deps :: pydict
  status :: task_status

record work =
  wid :: nat
  tasks :: "task list"

record flow =
  works :: "work list"

text \<open>The artifact names of a dict value, and the edges (producer, artifact name) of a dict.\<close>

fun exts_of :: "pyobj \<Rightarrow> string list" where
  "exts_of (Str s) = [s]"
| "exts_of (StrList ss) = ss"
| "exts_of (Obj n) = []"

fun edges_of_item :: "pyobj \<times> pyobj \<Rightarrow> (node \<times> string) list" where
  "edges_of_item (Obj n, v) = map (Pair n) (exts_of v)"
| "edges_of_item (k, v) = []"

definition edges_of :: "pydict \<Rightarrow> (node \<times> string) list" where
  "edges_of d = concat (map edges_of_item d)"

definition vocabulary :: "string set" where
  "vocabulary = {''WFK'', ''DDK'', ''DDB'', ''DVDB''}"

section \<open>Collaborators of the source files\<close>

text \<open>
  Modelled from the spec: the constructor of class Work (works.py) is not under src/. A new
  Work has no task (section 3: a Work is the ordered list of the Tasks registered in it). Its
  argument here is the identity of the new object.
\<close>

definition Work :: "nat \<Rightarrow> work" where
  "Work i = \<lparr>wid = i, tasks = []\<rparr>"

text \<open>
  Modelled from the spec: \<open>Work.register_task(spec, deps, kind)\<close> and the
  \<open>register_<kind>_task\<close> methods of works.py are not under src/. Following section 4.2 of
  the spec, registration creates a Task of the requested kind, appends it to the Work and
  returns the reference of the new Task. The Task keeps the dependencies it was registered
  with (\<open>deps=None\<close> registers none) and starts in status Init. The checks of section 4.1
  (producer reachable from the same Flow, no cycle) need the Flow, which a Work under
  construction does not have yet; they are not part of this model.
\<close>

definition register_task :: "work \<Rightarrow> task_kind \<Rightarrow> abinit_input \<Rightarrow> pydict option \<Rightarrow> node \<times> work" where
  "register_task w k inp d =
     (TaskRef (wid w) (length (tasks w)),
      w\<lparr>tasks := tasks w @
        [\<lparr>kind = k, input = inp, deps = (case d of None \<Rightarrow> [] | Some ds \<Rightarrow> ds),
          status = Init\<rparr>]\<rparr>)"

definition register_scf_task :: "work \<Rightarrow> abinit_input \<Rightarrow> pydict option \<Rightarrow> node \<times> work" where
  "register_scf_task w inp d = register_task w ScfTask inp d"

definition register_nscf_task :: "work \<Rightarrow> abinit_input \<Rightarrow> pydict option \<Rightarrow> node \<times> work" where
  "register_nscf_task w inp d = register_task w NscfTask inp d"

definition register_ddk_task :: "work \<Rightarrow> abinit_input \<Rightarrow> pydict option \<Rightarrow> node \<times> work" where
  "register_ddk_task w inp d = register_task w DdkTask inp d"

definition register_dde_task :: "work \<Rightarrow> abinit_input \<Rightarrow> pydict option \<Rightarrow> node \<times> work" where
  "register_dde_task w inp d = register_task w DdeTask inp d"

definition register_phonon_task :: "work \<Rightarrow> abinit_input \<Rightarrow> pydict option \<Rightarrow> node \<times> work" where
  "register_phonon_task w inp d = register_task w PhononTask inp d"

definition register_elastic_task :: "work \<Rightarrow> abinit_input \<Rightarrow> pydict option \<Rightarrow> node \<times> work" where
  "register_elastic_task w inp d = register_task w ElasticTask inp d"

definition register_eph_task :: "work \<Rightarrow> abinit_input \<Rightarrow> pydict option \<Rightarrow> node \<times> work" where
  "register_eph_task w inp d = register_task w EphTask inp d"

text \<open>
  Modelled from the spec: \<open>Task.add_deps\<close> is not under src/. A consumer may declare several
  edges to one producer and edges to several producers (section 3), so the new dependencies
  are added after the ones the Task already has. The Task is the object the Work holds: the
  update is written to the Work at the index of the reference; a reference to a Task that
  the Work does not hold changes nothing in it.
\<close>

definition add_deps :: "work \<Rightarrow> node \<Rightarrow> pydict \<Rightarrow> work" where
  "add_deps w t d =
     (case t of
        TaskRef wi i \<Rightarrow>
          (if wi = wid w \<and> i < length (tasks w)
           then w\<lparr>tasks := (tasks w)[i := (tasks w ! i)\<lparr>deps := deps (tasks w ! i) @ d\<rparr>]\<rparr>
           else w)
      | WorkRef wi \<Rightarrow> w)"

text \<open>\<open>inp.get(key, default)\<close> and \<open>inp[key]\<close>.\<close>

definition get_var :: "abinit_input \<Rightarrow> string \<Rightarrow> pyval \<Rightarrow> pyval" where
  "get_var inp k dflt = (case inp k of None \<Rightarrow> dflt | Some v \<Rightarrow> v)"

definition getitem :: "(string \<rightharpoonup> 'v) \<Rightarrow> string \<Rightarrow> pyerror + 'v" where
  "getitem m k = (case m k of None \<Rightarrow> Inl (KeyError k) | Some v \<Rightarrow> Inr v)"

text \<open>
  The methods of the input object (class AbinitInput) are outside the source files and the
  spec does not describe them. The generators of the physics inputs (\<open>make_ddk_inputs\<close>,
  \<open>make_dde_inputs\<close>, \<open>make_strain_perts_inputs\<close>) are parameters. The \<open>manager\<close> argument is
  only handed on to them and is left out.

  \<open>new_with_vars\<close> is used by the source to build an input in which the variables given in
  the call have the values given (line 55, and lines 49-61: "Build input file to compute
  GKQ.nc file from GS SCF input"; each variable is given once). Which of the variables of the
  old input the new one keeps is not said anywhere: that part is the parameter \<open>kept_vars\<close>,
  which may drop variables of the old input.
\<close>

record input_makers =
  make_ddk_inputs :: "abinit_input \<Rightarrow> tolerance option \<Rightarrow> abinit_input list"
  make_dde_inputs :: "abinit_input \<Rightarrow> tolerance option \<Rightarrow> bool \<Rightarrow> abinit_input list"
  make_strain_perts_inputs :: "abinit_input \<Rightarrow> tolerance option \<Rightarrow> bool \<Rightarrow> int \<Rightarrow> abinit_input list"
  kept_vars :: "abinit_input \<Rightarrow> (string \<times> pyval) list \<Rightarrow> abinit_input"

definition new_with_vars :: "input_makers \<Rightarrow> abinit_input \<Rightarrow> (string \<times> pyval) list \<Rightarrow> abinit_input" where
  "new_with_vars im inp kvs = fold (\<lambda>(k, v) m. m(k \<mapsto> v)) kvs (kept_vars im inp kvs)"

section \<open>dfpt\_works.py: ElasticWork\<close>

text \<open>The literal \<open>1.0e-20\<close>: the binary64 number nearest to \<open>10^-20\<close>.\<close>

definition float_1e_20 :: rat where
  "float_1e_20 = 6646139978924579 / 2 ^ 119"

text \<open>
  Lines 48-56: the task for the WFK file, a SCF task or, when \<open>den_deps\<close> is given, a NSCF
  task. \<open>tolerances["nscf"]["tolwfr"]\<close> raises KeyError when the inner key is missing.
\<close>

definition wfk_stage ::
  "input_makers \<Rightarrow> abinit_input \<Rightarrow> (string \<rightharpoonup> tolerance) \<Rightarrow> pydict option \<Rightarrow> work \<Rightarrow>
     pyerror + (node \<times> work)" where
  "wfk_stage mk scf_input tolerances den_deps new =
     (if den_deps = None then Inr (register_scf_task new scf_input None)
      else
        (case (if ''nscf'' \<in> dom tolerances
               then (case getitem tolerances ''nscf'' of
                       Inl e \<Rightarrow> Inl e
                     | Inr nscf_tol \<Rightarrow> getitem nscf_tol ''tolwfr'')
               else Inr (Num float_1e_20)) of
           Inl e \<Rightarrow> Inl e
         | Inr tolwfr \<Rightarrow>
             Inr (register_nscf_task new
                    (new_with_vars mk scf_input [(''iscf'', Num (- 2)), (''tolwfr'', tolwfr)])
                    den_deps)))"

text \<open>Lines 64-66: one DDK task per input, each reading the WFK file of \<open>wfk_task\<close>.\<close>

fun ddk_loop :: "node \<Rightarrow> work \<Rightarrow> node list \<Rightarrow> abinit_input list \<Rightarrow> node list \<times> work" where
  "ddk_loop wfk_task new ddk_tasks [] = (ddk_tasks, new)"
| "ddk_loop wfk_task new ddk_tasks (inp # rest) =
     (let (ddk_task, new') = register_ddk_task new inp (Some (dict_of [(Obj wfk_task, Str ''WFK'')]))
      in ddk_loop wfk_task new' (ddk_tasks @ [ddk_task]) rest)"

text \<open>
  Lines 58-67. The local name \<open>ddk_deps\<close> is bound only inside the \<open>if\<close>: the stage returns
  \<open>Some\<close> of its value when it is bound and \<open>None\<close> when it is not.
\<close>

definition ddk_stage ::
  "input_makers \<Rightarrow> abinit_input \<Rightarrow> bool \<Rightarrow> bool \<Rightarrow> (string \<rightharpoonup> tolerance) \<Rightarrow> node \<Rightarrow> work \<Rightarrow>
     pydict option \<times> work" where
  "ddk_stage mk scf_input with_piezo with_dde tolerances wfk_task new =
     (if with_piezo \<or> with_dde
      then
        (let ddk_tolerance = tolerances ''ddk'';
             ddk_multi = make_ddk_inputs mk scf_input ddk_tolerance;
             (ddk_tasks, new') = ddk_loop wfk_task new [] ddk_multi
         in (Some (dict_of (map (\<lambda>ddk_task. (Obj ddk_task, Str ''DDK'')) ddk_tasks)), new'))
      else (None, new))"

text \<open>Reading a local name: an unbound one raises (UnboundLocalError, a NameError).\<close>

definition read_local :: "string \<Rightarrow> 'a option \<Rightarrow> pyerror + 'a" where
  "read_local name v = (case v of None \<Rightarrow> Inl (NameError name) | Some x \<Rightarrow> Inr x)"

text \<open>
  The loops \<open>for inp in ...: new.register_..._task(inp, deps=d)\<close>: one task per input, all
  registered by the same method with the same deps.
\<close>

fun register_all ::
  "(work \<Rightarrow> abinit_input \<Rightarrow> pydict option \<Rightarrow> node \<times> work) \<Rightarrow> pydict \<Rightarrow> work \<Rightarrow>
     abinit_input list \<Rightarrow> work" where
  "register_all register d new [] = new"
| "register_all register d new (inp # rest) =
     register_all register d (snd (register new inp (Some d))) rest"

text \<open>Lines 69-77: the tasks for the electric field perturbation.\<close>

definition dde_stage ::
  "input_makers \<Rightarrow> abinit_input \<Rightarrow> bool \<Rightarrow> (string \<rightharpoonup> tolerance) \<Rightarrow> node \<Rightarrow> pydict option \<Rightarrow> work \<Rightarrow>
     pyerror + work" where
  "dde_stage mk scf_input with_dde tolerances wfk_task ddk_deps new =
     (if with_dde
      then
        (let dde_tolerance = tolerances ''dde'';
             dde_multi = make_dde_inputs mk scf_input dde_tolerance True;
             dde_deps = dict_of [(Obj wfk_task, Str ''WFK'')]
         in case read_local ''ddk_deps'' ddk_deps of
              Inl e \<Rightarrow> Inl e
            | Inr dd \<Rightarrow> Inr (register_all register_dde_task (dict_update dde_deps dd) new dde_multi))
      else Inr new)"

text \<open>
  Lines 87-88 and 94-95: \<open>{wfk_task: "WFK"}\<close>, updated with \<open>ddk_deps\<close> when \<open>with_piezo\<close>.
\<close>

definition wfk_and_ddk_deps :: "bool \<Rightarrow> node \<Rightarrow> pydict option \<Rightarrow> pyerror + pydict" where
  "wfk_and_ddk_deps with_piezo wfk_task ddk_deps =
     (let d = dict_of [(Obj wfk_task, Str ''WFK'')]
      in if with_piezo
         then (case read_local ''ddk_deps'' ddk_deps of
                 Inl e \<Rightarrow> Inl e
               | Inr dd \<Rightarrow> Inr (dict_update d dd))
         else Inr d)"

text \<open>Lines 85-91: the phonon perturbations, for the inputs with \<open>rfphon == 1\<close>.\<close>

definition phonon_stage ::
  "bool \<Rightarrow> bool \<Rightarrow> node \<Rightarrow> pydict option \<Rightarrow> abinit_input list \<Rightarrow> work \<Rightarrow> pyerror + work" where
  "phonon_stage with_relaxed_ion with_piezo wfk_task ddk_deps strain_multi new =
     (if with_relaxed_ion
      then (case wfk_and_ddk_deps with_piezo wfk_task ddk_deps of
              Inl e \<Rightarrow> Inl e
            | Inr ph_deps \<Rightarrow>
                Inr (register_all register_phonon_task ph_deps new
                       (filter (\<lambda>inp. get_var inp ''rfphon'' (Num 0) = Num 1) strain_multi)))
      else Inr new)"

text \<open>Lines 93-98: the strain perturbations, for the inputs with \<open>rfstrs != 0\<close>.\<close>

definition elastic_stage ::
  "bool \<Rightarrow> node \<Rightarrow> pydict option \<Rightarrow> abinit_input list \<Rightarrow> work \<Rightarrow> pyerror + work" where
  "elastic_stage with_piezo wfk_task ddk_deps strain_multi new =
     (case wfk_and_ddk_deps with_piezo wfk_task ddk_deps of
        Inl e \<Rightarrow> Inl e
      | Inr elast_deps \<Rightarrow>
          Inr (register_all register_elastic_task elast_deps new
                 (filter (\<lambda>inp. get_var inp ''rfstrs'' (Num 0) \<noteq> Num 0) strain_multi)))"

text \<open>
  \<open>ElasticWork.from_scf_input\<close>. \<open>new_wid\<close> is the identity of the Work object that
  \<open>cls(manager=manager)\<close> creates.
\<close>

definition ElasticWork_from_scf_input ::
  "input_makers \<Rightarrow> nat \<Rightarrow> abinit_input \<Rightarrow> bool \<Rightarrow> bool \<Rightarrow> bool \<Rightarrow> (string \<rightharpoonup> tolerance) option \<Rightarrow>
     pydict option \<Rightarrow> pyerror + work" where
  "ElasticWork_from_scf_input mk new_wid scf_input with_relaxed_ion with_piezo with_dde tolerances
       den_deps =
     (let tolerances = (case tolerances of None \<Rightarrow> Map.empty | Some t \<Rightarrow> t);
          new = Work new_wid
      in case wfk_stage mk scf_input tolerances den_deps new of
           Inl e \<Rightarrow> Inl e
         | Inr (wfk_task, new1) \<Rightarrow>
             (let (ddk_deps, new2) = ddk_stage mk scf_input with_piezo with_dde tolerances wfk_task new1
              in case dde_stage mk scf_input with_dde tolerances wfk_task ddk_deps new2 of
                   Inl e \<Rightarrow> Inl e
                 | Inr new3 \<Rightarrow>
                     (let strain_tolerance = tolerances ''strain'';
                          strain_multi = make_strain_perts_inputs mk scf_input strain_tolerance
                                           with_relaxed_ion 2
                      in case phonon_stage with_relaxed_ion with_piezo wfk_task ddk_deps
                                strain_multi new3 of
                           Inl e \<Rightarrow> Inl e
                         | Inr new4 \<Rightarrow> elastic_stage with_piezo wfk_task ddk_deps strain_multi new4)))"

text \<open>
  \<open>ElasticWork.on_all_ok\<close>. \<open>merge_ddb_files\<close> (class MergeDdb) is not under src/: it is a
  parameter that either raises or returns the path of the merged DDB file. The method has
  no \<open>try\<close>: an exception of the merge propagates out of \<open>on_all_ok\<close>. The Work is
  returned next to the outcome: the method assigns nothing in it.
\<close>

record results =
  node :: node
  returncode :: int
  message :: string

definition on_all_ok ::
  "(work \<Rightarrow> bool \<Rightarrow> bool \<Rightarrow> pyerror + string) \<Rightarrow> work \<Rightarrow> (pyerror + results) \<times> work" where
  "on_all_ok merge_ddb_files self =
     (case merge_ddb_files self False False of
        Inl e \<Rightarrow> (Inl e, self)
      | Inr out_ddb \<Rightarrow>
          (Inr \<lparr>node = WorkRef (wid self), returncode = 0, message = ''DDB merge done''\<rparr>, self))"

section \<open>eph\_flows.py: GkqPathFlow\<close>

text \<open>
  Modelled from the spec: \<open>Flow.register_work\<close> and \<open>Flow.register_scf_task\<close> of flows.py are
  not under src/. \<open>register_work\<close> appends the Work to the Flow (section 4.3);
  \<open>register_scf_task\<close> puts one SCF task in a new Work, registers that Work and returns it.
  A Work is named by its index in the Flow: every Work that \<open>from_scf_input\<close> creates is
  registered before the next one is created, so the index is known when the Work is made.
\<close>

definition register_work :: "flow \<Rightarrow> work \<Rightarrow> flow" where
  "register_work fl w = fl\<lparr>works := works fl @ [w]\<rparr>"

definition flow_register_scf_task :: "flow \<Rightarrow> abinit_input \<Rightarrow> work \<times> flow" where
  "flow_register_scf_task fl scf_input =
     (let w = snd (register_scf_task (Work (length (works fl))) scf_input None)
      in (w, register_work fl w))"

text \<open>\<open>work[i]\<close>: the reference of the i-th task of a Work.\<close>

definition work_getitem :: "work \<Rightarrow> nat \<Rightarrow> pyerror + node" where
  "work_getitem w i = (if i < length (tasks w) then Inr (TaskRef (wid w) i) else Inl IndexError)"

text \<open>
  \<open>PhononWork.from_scf_task\<close> and \<open>PhononWfkqWork.from_scf_task\<close> are outside the source
  files: they are parameters. Each is given the identity of the Work it builds and the
  arguments that vary, and returns the tasks of the Work; the second one also returns the
  list \<open>phonon_tasks\<close> of the Work. \<open>inputs\<close> are the methods of the input object.
\<close>

record work_makers =
  inputs :: input_makers
  PhononWork_from_scf_task :: "nat \<Rightarrow> node \<Rightarrow> pyval \<Rightarrow> bool \<Rightarrow> bool \<Rightarrow> task list"
  PhononWfkqWork_from_scf_task :: "nat \<Rightarrow> node \<Rightarrow> qpoint list \<Rightarrow> task list \<times> task list"

text \<open>\<open>tuple(x)\<close> of the value of a variable.\<close>

definition tuple :: "pyval \<Rightarrow> pyerror + qpoint" where
  "tuple v = (case v of Seq xs \<Rightarrow> Inr xs | Num x \<Rightarrow> Inl TypeError)"

text \<open>Lines 49-61.\<close>

definition make_eph_input :: "input_makers \<Rightarrow> abinit_input \<Rightarrow> pyval \<Rightarrow> qpoint \<Rightarrow> abinit_input" where
  "make_eph_input im scf_inp ngqpt qpt =
     new_with_vars im scf_inp
       [(''optdriver'', Num 7), (''eph_task'', Num (- 2)), (''nqpt'', Num 1), (''qpt'', Seq qpt),
        (''ddb_ngqpt'', ngqpt), (''prtphdos'', Num 0)]"

text \<open>Lines 66-71: the loop over \<open>work_qpath.phonon_tasks\<close> that fills \<open>eph_work\<close>.\<close>

fun eph_loop ::
  "input_makers \<Rightarrow> abinit_input \<Rightarrow> pyval \<Rightarrow> node \<Rightarrow> node \<Rightarrow> qpoint set \<Rightarrow> work \<Rightarrow> task list \<Rightarrow> pyerror + work" where
  "eph_loop im scf_input ngqpt work_qmesh work_qpath qseen eph_work [] = Inr eph_work"
| "eph_loop im scf_input ngqpt work_qmesh work_qpath qseen eph_work (task # rest) =
     (case getitem (input task) ''qpt'' of
        Inl e \<Rightarrow> Inl e
      | Inr v \<Rightarrow>
          (case tuple v of
             Inl e \<Rightarrow> Inl e
           | Inr qpt \<Rightarrow>
               (if qpt \<in> qseen
                then eph_loop im scf_input ngqpt work_qmesh work_qpath qseen eph_work rest
                else
                  (let (t, eph_work') =
                         register_eph_task eph_work (make_eph_input im scf_input ngqpt qpt)
                           (Some (deps task))
                   in eph_loop im scf_input ngqpt work_qmesh work_qpath (insert qpt qseen)
                        (add_deps eph_work' t
                           (dict_of [(Obj work_qmesh, Str ''DDB''), (Obj work_qpath, Str ''DVDB'')]))
                        rest))))"

text \<open>
  Lines 79-86: the loop that fills \<open>inteph_work\<close>. \<open>eph_inp["eph_use_ftinterp"] = 1\<close> sets
  that variable in the dictionary of the variables of \<open>eph_inp\<close>.
\<close>

fun inteph_loop ::
  "input_makers \<Rightarrow> abinit_input \<Rightarrow> pyval \<Rightarrow> node \<Rightarrow> qpoint set \<Rightarrow> work \<Rightarrow> task list \<Rightarrow> pyerror + work" where
  "inteph_loop im scf_input ngqpt work_qmesh qseen inteph_work [] = Inr inteph_work"
| "inteph_loop im scf_input ngqpt work_qmesh qseen inteph_work (task # rest) =
     (case getitem (input task) ''qpt'' of
        Inl e \<Rightarrow> Inl e
      | Inr v \<Rightarrow>
          (case tuple v of
             Inl e \<Rightarrow> Inl e
           | Inr qpt \<Rightarrow>
               (if qpt \<in> qseen
                then inteph_loop im scf_input ngqpt work_qmesh qseen inteph_work rest
                else
                  (let eph_inp = (make_eph_input im scf_input ngqpt qpt)(''eph_use_ftinterp'' \<mapsto> Num 1);
                       (t, inteph_work') = register_eph_task inteph_work eph_inp (Some (deps task))
                   in inteph_loop im scf_input ngqpt work_qmesh (insert qpt qseen)
                        (add_deps inteph_work' t
                           (dict_of [(Obj work_qmesh, StrList [''DDB'', ''DVDB''])]))
                        rest))))"

text \<open>
  \<open>GkqPathFlow.from_scf_input\<close>. \<open>workdir\<close> and \<open>manager\<close> are only handed on, and \<open>ndivsm\<close>
  is not used: they are left out.
\<close>

definition GkqPathFlow_from_scf_input ::
  "work_makers \<Rightarrow> abinit_input \<Rightarrow> pyval \<Rightarrow> qpoint list \<Rightarrow> bool \<Rightarrow> bool \<Rightarrow> pyerror + flow" where
  "GkqPathFlow_from_scf_input mk scf_input ngqpt qpath_list with_becs test_ft_interpolation =
     (let fl0 = \<lparr>works = []\<rparr>;
          (scf_work, fl1) = flow_register_scf_task fl0 scf_input
      in case work_getitem scf_work 0 of
           Inl e \<Rightarrow> Inl e
         | Inr scf_task \<Rightarrow>
             (let qmesh_id = length (works fl1);
                  work_qmesh = \<lparr>wid = qmesh_id,
                                tasks = PhononWork_from_scf_task mk qmesh_id scf_task ngqpt True with_becs\<rparr>;
                  fl2 = register_work fl1 work_qmesh;
                  qpath_id = length (works fl2);
                  (qpath_tasks, phonon_tasks) = PhononWfkqWork_from_scf_task mk qpath_id scf_task qpath_list;
                  work_qpath = \<lparr>wid = qpath_id, tasks = qpath_tasks\<rparr>;
                  fl3 = register_work fl2 work_qpath
              in case eph_loop (inputs mk) scf_input ngqpt (WorkRef (wid work_qmesh)) (WorkRef (wid work_qpath)) {}
                        (Work (length (works fl3))) phonon_tasks of
                   Inl e \<Rightarrow> Inl e
                 | Inr eph_work \<Rightarrow>
                     (let fl4 = register_work fl3 eph_work
                      in if test_ft_interpolation
                         then (case inteph_loop (inputs mk) scf_input ngqpt (WorkRef (wid work_qmesh)) {}
                                      (Work (length (works fl4))) phonon_tasks of
                                 Inl e \<Rightarrow> Inl e
                               | Inr inteph_work \<Rightarrow> Inr (register_work fl4 inteph_work))
                         else Inr fl4)))"

section \<open>Notions used in the statements\<close>

text \<open>
  The q-point tuple that the loops of \<open>GkqPathFlow.from_scf_input\<close> read from a task:
  \<open>tuple(task.input["qpt"])\<close> where that succeeds, \<open>None\<close> where it raises.
\<close>

definition qpt_of :: "task \<Rightarrow> qpoint option" where
  "qpt_of t = (case input t ''qpt'' of None \<Rightarrow> None | Some (Num x) \<Rightarrow> None | Some (Seq q) \<Rightarrow> Some q)"

text \<open>
  The tasks of a list whose q-point tuple is not in \<open>S\<close> and does not occur before them in the
  list, each with its tuple. The proofs describe the result of the two loops with it.
\<close>

fun first_seen :: "qpoint set \<Rightarrow> task list \<Rightarrow> (qpoint \<times> task) list" where
  "first_seen S [] = []"
| "first_seen S (p # ps) =
     (case qpt_of p of
        None \<Rightarrow> first_seen S ps
      | Some q \<Rightarrow> if q \<in> S then first_seen S ps else (q, p) # first_seen (insert q S) ps)"

text \<open>
  \<open>GkqPathFlow.from_scf_input\<close> registers its works in this order: the work of the SCF task
  (index 0), \<open>work_qmesh\<close> (1), \<open>work_qpath\<close> (2), \<open>eph_work\<close> (3) and, when
  \<open>test_ft_interpolation\<close> holds, \<open>inteph_work\<close> (4). \<open>gkq_phonon_tasks\<close> is the list
  \<open>work_qpath.phonon_tasks\<close> that the function gets from \<open>PhononWfkqWork.from_scf_task\<close>.
\<close>

definition gkq_phonon_tasks :: "work_makers \<Rightarrow> qpoint list \<Rightarrow> task list" where
  "gkq_phonon_tasks mk qpath_list = snd (PhononWfkqWork_from_scf_task mk 2 (TaskRef 0 0) qpath_list)"

definition work_qmesh_of :: "flow \<Rightarrow> work" where
  "work_qmesh_of fl = works fl ! 1"

definition work_qpath_of :: "flow \<Rightarrow> work" where
  "work_qpath_of fl = works fl ! 2"

definition eph_work_of :: "flow \<Rightarrow> work" where
  "eph_work_of fl = works fl ! 3"

definition inteph_work_of :: "flow \<Rightarrow> work" where
  "inteph_work_of fl = works fl ! 4"

text \<open>
  The items that \<open>ElasticWork.from_scf_input\<close> writes in its dict displays: a node as the key,
  and \<open>"WFK"\<close> or \<open>"DDK"\<close> as the value.
\<close>

fun elastic_item :: "pyobj \<times> pyobj \<Rightarrow> bool" where
  "elastic_item (Obj n, Str s) = (s = ''WFK'' \<or> s = ''DDK'')"
| "elastic_item (k, v) = False"

text \<open>
  Two readings of the shape of a \<open>deps\<close> item. \<open>spec_deps_item\<close> follows the words of
  section 4.1 of the spec: the key is an artifact name, the value the reference of the
  producer Task or a collection of artifact names. \<open>producer_item\<close> is the shape of the dict
  displays of the source: the key is the producer (a Task or a Work), the value an artifact
  name or a list of artifact names.
\<close>

fun spec_deps_item :: "pyobj \<times> pyobj \<Rightarrow> bool" where
  "spec_deps_item (Str a, Obj (TaskRef w i)) = True"
| "spec_deps_item (Str a, StrList names) = True"
| "spec_deps_item (k, v) = False"

fun producer_item :: "pyobj \<times> pyobj \<Rightarrow> bool" where
  "producer_item (Obj n, Str a) = True"
| "producer_item (Obj n, StrList names) = True"
| "producer_item (k, v) = False"

text \<open>
  Section 4.4 of the spec speaks of q-points that are physically equivalent without being
  equal as tuples. The instance used here: two q-points in reduced coordinates whose
  difference is a vector of the reciprocal lattice, that is, has integer components.
\<close>

definition physically_equivalent :: "qpoint \<Rightarrow> qpoint \<Rightarrow> bool" where
  "physically_equivalent q1 q2 = list_all2 (\<lambda>a b. a - b \<in> \<int>) q1 q2"

section \<open>Concrete inputs\<close>

text \<open>
  Inputs for runs of \<open>ElasticWork.from_scf_input\<close> and \<open>ElasticWork.on_all_ok\<close>. In the
  example a new input that is given \<open>tolwfr\<close> drops the tolerance \<open>tolvrs\<close> of the old one and
  keeps the other variables.
\<close>

definition example_scf_input :: abinit_input where
  "example_scf_input = [''ecut'' \<mapsto> Num 10, ''tolvrs'' \<mapsto> Num (1 / 10 ^ 8)]"

definition example_makers :: input_makers where
  "example_makers =
     \<lparr>make_ddk_inputs = (\<lambda>inp tol. [inp(''rfddk'' \<mapsto> Num 1)]),
      make_dde_inputs = (\<lambda>inp tol use_symmetries. [inp(''rfelfd'' \<mapsto> Num 3)]),
      make_strain_perts_inputs = (\<lambda>inp tol phonon_pert kptopt.
         (if phonon_pert then [inp(''rfphon'' \<mapsto> Num 1)] else []) @ [inp(''rfstrs'' \<mapsto> Num 3)]),
      kept_vars = (\<lambda>inp kvs.
         if ''tolwfr'' \<in> set (map fst kvs) then inp(''tolvrs'' := None) else inp)\<rparr>"

definition example_den_deps :: pydict where
  "example_den_deps = [(Obj (TaskRef 7 0), Str ''DEN'')]"

definition example_elastic_work :: work where
  "example_elastic_work =
     \<lparr>wid = 0,
      tasks = [\<lparr>kind = ScfTask, input = example_scf_input, deps = [], status = Succeeded\<rparr>,
               \<lparr>kind = ElasticTask, input = example_scf_input(''rfstrs'' \<mapsto> Num 3),
                 deps = [(Obj (TaskRef 0 0), Str ''WFK'')], status = Succeeded\<rparr>]\<rparr>"

definition failing_merge :: "work \<Rightarrow> bool \<Rightarrow> bool \<Rightarrow> pyerror + string" where
  "failing_merge w delete_source_ddbs only_dfpt_tasks = Inl (RuntimeError ''mrgddb'')"

definition working_merge :: "work \<Rightarrow> bool \<Rightarrow> bool \<Rightarrow> pyerror + string" where
  "working_merge w delete_source_ddbs only_dfpt_tasks = Inr ''outdir/out_DDB''"

text \<open>
  Inputs for runs of \<open>GkqPathFlow.from_scf_input\<close>. For every q-point of the path the
  example work has a NSCF task for the WFQ file and two phonon tasks, one per perturbation,
  so several phonon tasks share a q-point as they do in a real run.
\<close>

fun example_qpath_tasks :: "nat \<Rightarrow> node \<Rightarrow> nat \<Rightarrow> qpoint list \<Rightarrow> task list" where
  "example_qpath_tasks i scf_task k [] = []"
| "example_qpath_tasks i scf_task k (q # qs) =
     [\<lparr>kind = NscfTask, input = [''qpt'' \<mapsto> Seq q, ''iscf'' \<mapsto> Num (- 2)],
       deps = [(Obj scf_task, Str ''DEN'')], status = Init\<rparr>,
      \<lparr>kind = PhononTask, input = [''qpt'' \<mapsto> Seq q, ''rfatpol'' \<mapsto> Seq [1, 1]],
       deps = [(Obj scf_task, Str ''WFK''), (Obj (TaskRef i k), Str ''WFQ'')], status = Init\<rparr>,
      \<lparr>kind = PhononTask, input = [''qpt'' \<mapsto> Seq q, ''rfatpol'' \<mapsto> Seq [2, 2]],
       deps = [(Obj scf_task, Str ''WFK''), (Obj (TaskRef i k), Str ''WFQ'')], status = Init\<rparr>]
     @ example_qpath_tasks i scf_task (k + 3) qs"

definition example_work_makers :: work_makers where
  "example_work_makers =
     \<lparr>inputs = example_makers,
      PhononWork_from_scf_task = (\<lambda>i scf_task ngqpt is_ngqpt with_becs.
         [\<lparr>kind = PhononTask, input = [''qpt'' \<mapsto> Seq [0, 0, 0]],
           deps = [(Obj scf_task, Str ''WFK'')], status = Init\<rparr>]),
      PhononWfkqWork_from_scf_task = (\<lambda>i scf_task qpath_list.
         (example_qpath_tasks i scf_task 0 qpath_list,
          filter (\<lambda>t. kind t = PhononTask) (example_qpath_tasks i scf_task 0 qpath_list)))\<rparr>"

definition example_qpath :: "qpoint list" where
  "example_qpath = [[1 / 2, 0, 0], [0, 0, 0], [1 / 2, 0, 0]]"

definition equivalent_qpath :: "qpoint list" where
  "equivalent_qpath = [[1 / 2, 0, 0], [3 / 2, 0, 0]]"

section \<open>Registration, dicts and edges\<close>

lemma register_task_tasks:
  "tasks (snd (register_task w k inp d)) =
     tasks w @ [\<lparr>kind = k, input = inp, deps = (case d of None \<Rightarrow> [] | Some ds \<Rightarrow> ds), status = Init\<rparr>]"
  by (simp add: register_task_def)

lemma register_task_wid: "wid (snd (register_task w k inp d)) = wid w"
  by (simp add: register_task_def)

lemma register_all_tasks:
  assumes "\<And>w inp ds. register w inp ds = register_task w k inp ds"
  shows "tasks (register_all register d w inps) =
     tasks w @ map (\<lambda>inp. \<lparr>kind = k, input = inp, deps = d, status = Init\<rparr>) inps"
  by (induction inps arbitrary: w) (simp_all add: assms register_task_tasks)

lemma register_all_wid:
  assumes "\<And>w inp ds. register w inp ds = register_task w k inp ds"
  shows "wid (register_all register d w inps) = wid w"
  by (induction inps arbitrary: w) (simp_all add: assms register_task_wid)

lemmas register_all_dde =
  register_all_tasks [of register_dde_task DdeTask, OF register_dde_task_def]
  register_all_wid [of register_dde_task DdeTask, OF register_dde_task_def]

lemmas register_all_phonon =
  register_all_tasks [of register_phonon_task PhononTask, OF register_phonon_task_def]
  register_all_wid [of register_phonon_task PhononTask, OF register_phonon_task_def]

lemmas register_all_elastic =
  register_all_tasks [of register_elastic_task ElasticTask, OF register_elastic_task_def]
  register_all_wid [of register_elastic_task ElasticTask, OF register_elastic_task_def]

lemma dict_of_single: "dict_of [(k, v)] = [(k, v)]"
  by (simp add: dict_of_def dict_update_def)

lemma dict_of_pair: "k1 \<noteq> k2 \<Longrightarrow> dict_of [(k1, v1), (k2, v2)] = [(k1, v1), (k2, v2)]"
  by (simp add: dict_of_def dict_update_def)

lemma set_alist_update: "set (AList.update k v al) \<subseteq> insert (k, v) (set al)"
  by (induction al) auto

lemma set_dict_update: "set (dict_update d other) \<subseteq> set d \<union> set other"
  unfolding dict_update_def
proof (induction other arbitrary: d)
  case Nil
  then show ?case by simp
next
  case (Cons a other)
  obtain k v where a: "a = (k, v)" by (cases a)
  have "set (fold (\<lambda>(k, v). AList.update k v) other (AList.update k v d))
          \<subseteq> set (AList.update k v d) \<union> set other"
    by (rule Cons.IH)
  with set_alist_update [of k v d] show ?case
    by (auto simp: a)
qed

lemma set_dict_of: "set (dict_of items) \<subseteq> set items"
  using set_dict_update [of "[]" items] by (simp add: dict_of_def)

lemma edges_of_append: "edges_of (a @ b) = edges_of a @ edges_of b"
  by (simp add: edges_of_def)

lemma elastic_item_producer: "elastic_item it \<Longrightarrow> producer_item it"
  by (cases it rule: elastic_item.cases) auto

section \<open>The stages of ElasticWork.from\_scf\_input\<close>

lemma ddk_loop_tasks:
  "tasks (snd (ddk_loop wfk w acc inps)) =
     tasks w @ map (\<lambda>inp. \<lparr>kind = DdkTask, input = inp, deps = [(Obj wfk, Str ''WFK'')], status = Init\<rparr>) inps"
  by (induction inps arbitrary: w acc)
     (simp_all add: register_ddk_task_def register_task_def dict_of_single)

lemma ddk_loop_wid: "wid (snd (ddk_loop wfk w acc inps)) = wid w"
  by (induction inps arbitrary: w acc)
     (simp_all add: register_ddk_task_def register_task_def)

lemma wfk_stage_Inl: "wfk_stage mk scf tol dd w = Inl e \<Longrightarrow> \<exists>k. e = KeyError k"
  by (auto simp: wfk_stage_def getitem_def split: if_splits option.splits sum.splits)

lemma wfk_stage_Inr:
  assumes "wfk_stage mk scf tol dd w = Inr (t, w')"
  shows "t = TaskRef (wid w) (length (tasks w))" and "wid w' = wid w"
    and "\<exists>x. tasks w' = tasks w @ [x]"
  using assms
  by (auto simp: wfk_stage_def register_scf_task_def register_nscf_task_def register_task_def
      split: if_splits sum.splits)

lemma ddk_stage_bound: "(fst (ddk_stage mk scf wp wd tol wfk w) \<noteq> None) = (wp \<or> wd)"
  by (simp add: ddk_stage_def Let_def split: prod.splits)

lemma ddk_stage_items:
  assumes "fst (ddk_stage mk scf wp wd tol wfk w) = Some d"
  shows "list_all elastic_item d"
proof -
  have "\<And>ts. list_all elastic_item (dict_of (map (\<lambda>t. (Obj t, Str ''DDK'')) ts))"
  proof -
    fix ts :: "node list"
    have "set (dict_of (map (\<lambda>t. (Obj t, Str ''DDK'')) ts)) \<subseteq> set (map (\<lambda>t. (Obj t, Str ''DDK'')) ts)"
      by (rule set_dict_of)
    then show "list_all elastic_item (dict_of (map (\<lambda>t. (Obj t, Str ''DDK'')) ts))"
      by (auto simp: list_all_iff)
  qed
  with assms show ?thesis
    by (auto simp: ddk_stage_def Let_def split: prod.splits if_splits)
qed

lemma ddk_stage_tasks:
  "\<exists>new. tasks (snd (ddk_stage mk scf wp wd tol wfk w)) = tasks w @ new \<and>
     (\<forall>t\<in>set new. list_all elastic_item (deps t))"
proof (cases "wp \<or> wd")
  case True
  have "snd (ddk_stage mk scf wp wd tol wfk w) =
          snd (ddk_loop wfk w [] (make_ddk_inputs mk scf (tol ''ddk'')))"
    using True by (simp add: ddk_stage_def Let_def split: prod.splits)
  then show ?thesis
    by (auto simp: ddk_loop_tasks)
next
  case False
  then show ?thesis by (simp add: ddk_stage_def)
qed

lemma ddk_stage_wid: "wid (snd (ddk_stage mk scf wp wd tol wfk w)) = wid w"
proof (cases "wp \<or> wd")
  case True
  have "snd (ddk_stage mk scf wp wd tol wfk w) =
          snd (ddk_loop wfk w [] (make_ddk_inputs mk scf (tol ''ddk'')))"
    using True by (simp add: ddk_stage_def Let_def split: prod.splits)
  then show ?thesis by (simp add: ddk_loop_wid)
next
  case False
  then show ?thesis by (simp add: ddk_stage_def)
qed

lemma wfk_and_ddk_deps_Inl:
  "wfk_and_ddk_deps wp wfk dd = Inl e \<Longrightarrow> wp \<and> dd = None \<and> e = NameError ''ddk_deps''"
  by (auto simp: wfk_and_ddk_deps_def read_local_def Let_def split: if_splits option.splits)

lemma wfk_and_ddk_deps_Inr:
  assumes "wfk_and_ddk_deps wp wfk dd = Inr d" and "\<And>x. dd = Some x \<Longrightarrow> list_all elastic_item x"
  shows "list_all elastic_item d"
proof (cases "wp")
  case False
  with assms(1) show ?thesis
    by (auto simp: wfk_and_ddk_deps_def Let_def dict_of_single)
next
  case True
  with assms(1) obtain x where x: "dd = Some x" and d: "d = dict_update [(Obj wfk, Str ''WFK'')] x"
    by (auto simp: wfk_and_ddk_deps_def read_local_def Let_def dict_of_single split: option.splits)
  have "set d \<subseteq> set [(Obj wfk, Str ''WFK'')] \<union> set x"
    unfolding d by (rule set_dict_update)
  with assms(2) [OF x] show ?thesis
    by (auto simp: list_all_iff)
qed

lemma dde_stage_Inl:
  "dde_stage mk scf wd tol wfk dd w = Inl e \<Longrightarrow> wd \<and> dd = None \<and> e = NameError ''ddk_deps''"
  by (auto simp: dde_stage_def read_local_def Let_def split: if_splits option.splits)

lemma dde_stage_Inr:
  assumes "dde_stage mk scf wd tol wfk dd w = Inr w'" and "\<And>x. dd = Some x \<Longrightarrow> list_all elastic_item x"
  shows "wid w' = wid w \<and> (\<exists>new. tasks w' = tasks w @ new \<and> (\<forall>t\<in>set new. list_all elastic_item (deps t)))"
proof (cases wd)
  case False
  with assms(1) show ?thesis by (simp add: dde_stage_def)
next
  case True
  with assms(1) obtain x where x: "dd = Some x"
    and w': "w' = register_all register_dde_task (dict_update [(Obj wfk, Str ''WFK'')] x) w
                    (make_dde_inputs mk scf (tol ''dde'') True)"
    by (auto simp: dde_stage_def read_local_def Let_def dict_of_single split: option.splits)
  have "set (dict_update [(Obj wfk, Str ''WFK'')] x) \<subseteq> set [(Obj wfk, Str ''WFK'')] \<union> set x"
    by (rule set_dict_update)
  with assms(2) [OF x] have "list_all elastic_item (dict_update [(Obj wfk, Str ''WFK'')] x)"
    by (auto simp: list_all_iff)
  then show ?thesis
    by (auto simp: w' register_all_dde)
qed

lemma phonon_stage_Inl:
  "phonon_stage wri wp wfk dd sm w = Inl e \<Longrightarrow> wp \<and> dd = None \<and> e = NameError ''ddk_deps''"
  by (auto simp: phonon_stage_def split: if_splits sum.splits dest: wfk_and_ddk_deps_Inl)

lemma phonon_stage_Inr:
  assumes "phonon_stage wri wp wfk dd sm w = Inr w'" and "\<And>x. dd = Some x \<Longrightarrow> list_all elastic_item x"
  shows "wid w' = wid w \<and> (\<exists>new. tasks w' = tasks w @ new \<and> (\<forall>t\<in>set new. list_all elastic_item (deps t)))"
proof (cases wri)
  case False
  with assms(1) show ?thesis by (simp add: phonon_stage_def)
next
  case True
  with assms(1) obtain d where d: "wfk_and_ddk_deps wp wfk dd = Inr d"
    and w': "w' = register_all register_phonon_task d w (filter (\<lambda>inp. get_var inp ''rfphon'' (Num 0) = Num 1) sm)"
    by (auto simp: phonon_stage_def split: sum.splits)
  from wfk_and_ddk_deps_Inr [OF d assms(2)] show ?thesis
    by (auto simp: w' register_all_phonon)
qed

lemma elastic_stage_Inl:
  "elastic_stage wp wfk dd sm w = Inl e \<Longrightarrow> wp \<and> dd = None \<and> e = NameError ''ddk_deps''"
  by (auto simp: elastic_stage_def split: sum.splits dest: wfk_and_ddk_deps_Inl)

lemma elastic_stage_Inr:
  assumes "elastic_stage wp wfk dd sm w = Inr w'" and "\<And>x. dd = Some x \<Longrightarrow> list_all elastic_item x"
  shows "wid w' = wid w \<and> (\<exists>new. tasks w' = tasks w @ new \<and> (\<forall>t\<in>set new. list_all elastic_item (deps t)))"
proof -
  from assms(1) obtain d where d: "wfk_and_ddk_deps wp wfk dd = Inr d"
    and w': "w' = register_all register_elastic_task d w (filter (\<lambda>inp. get_var inp ''rfstrs'' (Num 0) \<noteq> Num 0) sm)"
    by (auto simp: elastic_stage_def split: sum.splits)
  from wfk_and_ddk_deps_Inr [OF d assms(2)] show ?thesis
    by (auto simp: w' register_all_elastic)
qed

lemma elastic_Inr_stages:
  assumes "ElasticWork_from_scf_input mk i scf wri wp wd tol dd = Inr w"
  shows "\<exists>T wfk w1 dk w2 sm w3 w4.
           T = (case tol of None \<Rightarrow> Map.empty | Some t \<Rightarrow> t) \<and>
           wfk_stage mk scf T dd (Work i) = Inr (wfk, w1) \<and>
           dk = fst (ddk_stage mk scf wp wd T wfk w1) \<and>
           w2 = snd (ddk_stage mk scf wp wd T wfk w1) \<and>
           dde_stage mk scf wd T wfk dk w2 = Inr w3 \<and>
           phonon_stage wri wp wfk dk sm w3 = Inr w4 \<and>
           elastic_stage wp wfk dk sm w4 = Inr w"
  using assms
  by (auto simp: ElasticWork_from_scf_input_def Let_def split: sum.splits prod.splits)

lemma ddk_stage_None: "ddk_stage mk scf wp wd T wfk w = (None, w') \<Longrightarrow> \<not> wp \<and> \<not> wd"
  using ddk_stage_bound [of mk scf wp wd T wfk w] by auto

lemma elastic_no_NameError:
  "ElasticWork_from_scf_input mk i scf wri wp wd tol dd \<noteq> Inl (NameError name)"
proof
  assume "ElasticWork_from_scf_input mk i scf wri wp wd tol dd = Inl (NameError name)"
  then show False
    by (auto simp: ElasticWork_from_scf_input_def Let_def split: sum.splits prod.splits
        dest!: wfk_stage_Inl dde_stage_Inl phonon_stage_Inl elastic_stage_Inl ddk_stage_None)
qed

lemma elastic_tasks_shape:
  assumes "ElasticWork_from_scf_input mk i scf wri wp wd tol dd = Inr w"
  shows "wid w = i \<and> (\<exists>first rest. tasks w = first # rest \<and>
            wfk_stage mk scf (case tol of None \<Rightarrow> Map.empty | Some t \<Rightarrow> t) dd (Work i) =
              Inr (TaskRef i 0, \<lparr>wid = i, tasks = [first]\<rparr>) \<and>
            (\<forall>t\<in>set rest. list_all elastic_item (deps t)))"
proof -
  from elastic_Inr_stages [OF assms] obtain T wfk w1 dk w2 sm w3 w4 where
    T: "T = (case tol of None \<Rightarrow> Map.empty | Some t \<Rightarrow> t)" and
    s1: "wfk_stage mk scf T dd (Work i) = Inr (wfk, w1)" and
    dk: "dk = fst (ddk_stage mk scf wp wd T wfk w1)" and
    w2: "w2 = snd (ddk_stage mk scf wp wd T wfk w1)" and
    s3: "dde_stage mk scf wd T wfk dk w2 = Inr w3" and
    s4: "phonon_stage wri wp wfk dk sm w3 = Inr w4" and
    s5: "elastic_stage wp wfk dk sm w4 = Inr w"
    by blast
  from wfk_stage_Inr [OF s1] obtain first where
    wfk: "wfk = TaskRef i 0" and w1: "wid w1 = i" "tasks w1 = [first]"
    by (auto simp: Work_def)
  have w1_eq: "w1 = \<lparr>wid = i, tasks = [first]\<rparr>"
    using w1 by (cases w1) simp
  have dk_ok: "\<And>x. dk = Some x \<Longrightarrow> list_all elastic_item x"
    unfolding dk by (rule ddk_stage_items)
  obtain n2 where n2: "tasks w2 = tasks w1 @ n2" "\<forall>t\<in>set n2. list_all elastic_item (deps t)"
    using ddk_stage_tasks [of mk scf wp wd T wfk w1] unfolding w2 by blast
  have id2: "wid w2 = i"
    unfolding w2 using w1 by (simp add: ddk_stage_wid)
  from dde_stage_Inr [OF s3 dk_ok] obtain n3 where
    n3: "wid w3 = wid w2" "tasks w3 = tasks w2 @ n3" "\<forall>t\<in>set n3. list_all elastic_item (deps t)"
    by blast
  from phonon_stage_Inr [OF s4 dk_ok] obtain n4 where
    n4: "wid w4 = wid w3" "tasks w4 = tasks w3 @ n4" "\<forall>t\<in>set n4. list_all elastic_item (deps t)"
    by blast
  from elastic_stage_Inr [OF s5 dk_ok] obtain n5 where
    n5: "wid w = wid w4" "tasks w = tasks w4 @ n5" "\<forall>t\<in>set n5. list_all elastic_item (deps t)"
    by blast
  have "tasks w = first # (n2 @ n3 @ n4 @ n5)"
    by (simp add: n5 n4 n3 n2 w1)
  moreover have "\<forall>t\<in>set (n2 @ n3 @ n4 @ n5). list_all elastic_item (deps t)"
    using n2 n3 n4 n5 by auto
  moreover have "wid w = i"
    by (simp add: n5 n4 n3 id2)
  ultimately show ?thesis
    using s1 unfolding T wfk w1_eq by blast
qed

lemma elastic_Inl:
  assumes "ElasticWork_from_scf_input mk i scf wri wp wd tol dd = Inl e"
  shows "wfk_stage mk scf (case tol of None \<Rightarrow> Map.empty | Some t \<Rightarrow> t) dd (Work i) = Inl e"
  using assms
  by (auto simp: ElasticWork_from_scf_input_def Let_def split: sum.splits prod.splits
      dest!: dde_stage_Inl phonon_stage_Inl elastic_stage_Inl ddk_stage_None)

lemma elastic_returns:
  assumes "wfk_stage mk scf (case tol of None \<Rightarrow> Map.empty | Some t \<Rightarrow> t) dd (Work i) =
             Inr (TaskRef i 0, \<lparr>wid = i, tasks = [first]\<rparr>)"
  shows "\<exists>w rest. ElasticWork_from_scf_input mk i scf wri wp wd tol dd = Inr w \<and> 
            tasks w = first # rest"
proof (cases "ElasticWork_from_scf_input mk i scf wri wp wd tol dd")
  case (Inl e)
  from elastic_Inl [OF this] assms show ?thesis by simp
next
  case (Inr w)
  from elastic_tasks_shape [OF this] assms show ?thesis
    using Inr by auto
qed

lemma elastic_first_deps:
  assumes "ElasticWork_from_scf_input mk i scf wri wp wd tol dd = Inr w"
  shows "tasks w \<noteq> [] \<and> deps (hd (tasks w)) = (case dd of None \<Rightarrow> [] | Some d \<Rightarrow> d)"
proof -
  from elastic_tasks_shape [OF assms] obtain first rest where
    t: "tasks w = first # rest" and
    s: "wfk_stage mk scf (case tol of None \<Rightarrow> Map.empty | Some t \<Rightarrow> t) dd (Work i) =
          Inr (TaskRef i 0, \<lparr>wid = i, tasks = [first]\<rparr>)"
    by blast
  from s have "deps first = (case dd of None \<Rightarrow> [] | Some d \<Rightarrow> d)"
    by (auto simp: wfk_stage_def register_scf_task_def register_nscf_task_def register_task_def
        Work_def split: if_splits sum.splits)
  with t show ?thesis by simp
qed

lemma elastic_rest_items:
  assumes "ElasticWork_from_scf_input mk i scf wri wp wd tol dd = Inr w"
  shows "\<forall>t\<in>set (tl (tasks w)). list_all elastic_item (deps t)"
  using elastic_tasks_shape [OF assms] by auto

lemma example_elastic_run:
  "ElasticWork_from_scf_input example_makers 0 example_scf_input False True False None None =
     Inr \<lparr>wid = 0,
          tasks = [\<lparr>kind = ScfTask, input = example_scf_input, deps = [], status = Init\<rparr>,
                   \<lparr>kind = DdkTask, input = example_scf_input(''rfddk'' \<mapsto> Num 1),
                     deps = [(Obj (TaskRef 0 0), Str ''WFK'')], status = Init\<rparr>,
                   \<lparr>kind = ElasticTask, input = example_scf_input(''rfstrs'' \<mapsto> Num 3),
                     deps = [(Obj (TaskRef 0 0), Str ''WFK''), (Obj (TaskRef 0 1), Str ''DDK'')],
                     status = Init\<rparr>]\<rparr>"
  by (simp add: ElasticWork_from_scf_input_def wfk_stage_def ddk_stage_def dde_stage_def
      phonon_stage_def elastic_stage_def wfk_and_ddk_deps_def read_local_def
      register_scf_task_def register_ddk_task_def register_elastic_task_def register_task_def
      Work_def dict_of_def dict_update_def get_var_def example_makers_def Let_def
      fun_upd_same fun_upd_other del: fun_upd_apply)

text \<open>
  C9. For all values of the flags \<open>with_relaxed_ion\<close>, \<open>with_piezo\<close> and \<open>with_dde\<close>,
  \<open>ElasticWork.from_scf_input\<close> does not end with a NameError. The name \<open>ddk_deps\<close> is bound
  exactly when \<open>with_piezo\<close> or \<open>with_dde\<close> holds, and none of the three blocks that read it
  (the dde block, the phonon block, the elastic block) raises a NameError after the block
  that binds it.
\<close>

theorem ElasticWork_ddk_deps_bound:
  "ElasticWork_from_scf_input mk i scf_input with_relaxed_ion with_piezo with_dde tolerances den_deps
     \<noteq> Inl (NameError name) \<and>
   (fst (ddk_stage mk scf_input with_piezo with_dde tol wfk_task new) \<noteq> None) = (with_piezo \<or> with_dde) \<and>
   (dde_stage mk scf_input with_dde tol wfk_task
        (fst (ddk_stage mk scf_input with_piezo with_dde tol wfk_task new)) new2 \<noteq> Inl (NameError name)) \<and>
   (phonon_stage with_relaxed_ion with_piezo wfk_task
        (fst (ddk_stage mk scf_input with_piezo with_dde tol wfk_task new)) strain_multi new3
      \<noteq> Inl (NameError name)) \<and>
   (elastic_stage with_piezo wfk_task
        (fst (ddk_stage mk scf_input with_piezo with_dde tol wfk_task new)) strain_multi new4
      \<noteq> Inl (NameError name))"
proof (intro conjI)
  show "ElasticWork_from_scf_input mk i scf_input with_relaxed_ion with_piezo with_dde tolerances den_deps
     \<noteq> Inl (NameError name)"
    by (rule elastic_no_NameError)
  show "(fst (ddk_stage mk scf_input with_piezo with_dde tol wfk_task new) \<noteq> None) = (with_piezo \<or> with_dde)"
    by (rule ddk_stage_bound)
  show "dde_stage mk scf_input with_dde tol wfk_task
        (fst (ddk_stage mk scf_input with_piezo with_dde tol wfk_task new)) new2 \<noteq> Inl (NameError name)"
    using ddk_stage_bound [of mk scf_input with_piezo with_dde tol wfk_task new]
    by (auto dest!: dde_stage_Inl)
  show "phonon_stage with_relaxed_ion with_piezo wfk_task
        (fst (ddk_stage mk scf_input with_piezo with_dde tol wfk_task new)) strain_multi new3
      \<noteq> Inl (NameError name)"
    using ddk_stage_bound [of mk scf_input with_piezo with_dde tol wfk_task new]
    by (auto dest!: phonon_stage_Inl)
  show "elastic_stage with_piezo wfk_task
        (fst (ddk_stage mk scf_input with_piezo with_dde tol wfk_task new)) strain_multi new4
      \<noteq> Inl (NameError name)"
    using ddk_stage_bound [of mk scf_input with_piezo with_dde tol wfk_task new]
    by (auto dest!: elastic_stage_Inl)
qed





section \<open>ElasticWork.on\_all\_ok\<close>

text \<open>
  C7. Whenever \<open>ElasticWork.on_all_ok\<close> returns, the merge
  \<open>merge_ddb_files(delete_source_ddbs=False, only_dfpt_tasks=False)\<close> has returned, and the
  result is the Results object of the Work with returncode 0 and the message
  \<open>"DDB merge done"\<close>; and whenever the merge returns, \<open>on_all_ok\<close> returns that object.
\<close>

theorem ElasticWork_on_all_ok_result:
  "(fst (on_all_ok merge_ddb_files self) = Inr r \<longrightarrow>
      returncode r = 0 \<and> message r = ''DDB merge done'' \<and> node r = WorkRef (wid self) \<and>
      (\<exists>out_ddb. merge_ddb_files self False False = Inr out_ddb)) \<and>
   (merge_ddb_files self False False = Inr out \<longrightarrow>
      fst (on_all_ok merge_ddb_files self) =
        Inr \<lparr>node = WorkRef (wid self), returncode = 0, message = ''DDB merge done''\<rparr>)"
  by (auto simp: on_all_ok_def split: sum.splits)

theorem ElasticWork_on_all_ok_result_witness:
  "working_merge example_elastic_work False False = Inr ''outdir/out_DDB'' \<and>
   fst (on_all_ok working_merge example_elastic_work) =
     Inr \<lparr>node = WorkRef 0, returncode = 0, message = ''DDB merge done''\<rparr> \<and>
   returncode \<lparr>node = WorkRef 0, returncode = 0, message = ''DDB merge done''\<rparr> = 0"
proof -
  have m: "working_merge example_elastic_work False False = Inr ''outdir/out_DDB''"
    by (simp add: working_merge_def)
  have r: "fst (on_all_ok working_merge example_elastic_work) =
     Inr \<lparr>node = WorkRef 0, returncode = 0, message = ''DDB merge done''\<rparr>"
    using ElasticWork_on_all_ok_result [of working_merge example_elastic_work _ "''outdir/out_DDB''",
        THEN conjunct2] m
    by (simp add: example_elastic_work_def)
  have "returncode \<lparr>node = WorkRef 0, returncode = 0, message = ''DDB merge done''\<rparr> = 0"
    using ElasticWork_on_all_ok_result [of working_merge example_elastic_work
        "\<lparr>node = WorkRef 0, returncode = 0, message = ''DDB merge done''\<rparr>", THEN conjunct1] r
    by simp
  with m r show ?thesis by simp
qed

text \<open>
  C8 as the spec states it fails: when the merge raises, \<open>on_all_ok\<close> returns no Results
  object with a failure code; the exception of the merge leaves the method.
\<close>

theorem ElasticWork_on_all_ok_failure_counterexample:
  "failing_merge example_elastic_work False False = Inl (RuntimeError ''mrgddb'') \<and>
   fst (on_all_ok failing_merge example_elastic_work) = Inl (RuntimeError ''mrgddb'')"
  by (simp add: on_all_ok_def failing_merge_def)

text \<open>
  C8, amended. When the DDB merge raises inside \<open>ElasticWork.on_all_ok\<close>, the exception
  leaves \<open>on_all_ok\<close> and no Results object is built; the Work and the statuses of its tasks
  are as they were. Every Results object that \<open>on_all_ok\<close> returns has returncode 0.
\<close>

theorem ElasticWork_on_all_ok_failure:
  "(merge_ddb_files self False False = Inl e \<longrightarrow>
      fst (on_all_ok merge_ddb_files self) = Inl e \<and>
      snd (on_all_ok merge_ddb_files self) = self \<and>
      map status (tasks (snd (on_all_ok merge_ddb_files self))) = map status (tasks self)) \<and>
   (fst (on_all_ok merge_ddb_files self) = Inr r \<longrightarrow> returncode r = 0)"
  by (auto simp: on_all_ok_def split: sum.splits)

theorem ElasticWork_on_all_ok_failure_witness:
  "failing_merge example_elastic_work False False = Inl (RuntimeError ''mrgddb'') \<and>
   fst (on_all_ok failing_merge example_elastic_work) = Inl (RuntimeError ''mrgddb'') \<and>
   map status (tasks (snd (on_all_ok failing_merge example_elastic_work))) = [Succeeded, Succeeded] \<and>
   fst (on_all_ok working_merge example_elastic_work) =
     Inr \<lparr>node = WorkRef 0, returncode = 0, message = ''DDB merge done''\<rparr> \<and>
   returncode \<lparr>node = WorkRef 0, returncode = 0, message = ''DDB merge done''\<rparr> = 0"
proof -
  have m: "failing_merge example_elastic_work False False = Inl (RuntimeError ''mrgddb'')"
    by (simp add: failing_merge_def)
  have r: "fst (on_all_ok working_merge example_elastic_work) =
     Inr \<lparr>node = WorkRef 0, returncode = 0, message = ''DDB merge done''\<rparr>"
    by (simp add: on_all_ok_def working_merge_def example_elastic_work_def)
  from ElasticWork_on_all_ok_failure [of failing_merge example_elastic_work "RuntimeError ''mrgddb''",
      THEN conjunct1] m
  have "fst (on_all_ok failing_merge example_elastic_work) = Inl (RuntimeError ''mrgddb'')"
    and "map status (tasks (snd (on_all_ok failing_merge example_elastic_work))) =
           map status (tasks example_elastic_work)"
    by simp_all
  moreover have "map status (tasks example_elastic_work) = [Succeeded, Succeeded]"
    by (simp add: example_elastic_work_def)
  moreover have "returncode \<lparr>node = WorkRef 0, returncode = 0, message = ''DDB merge done''\<rparr> = 0"
    using ElasticWork_on_all_ok_failure [of working_merge example_elastic_work _
        "\<lparr>node = WorkRef 0, returncode = 0, message = ''DDB merge done''\<rparr>", THEN conjunct2] r
    by simp
  ultimately show ?thesis
    using m r by simp
qed

section \<open>The loops of GkqPathFlow.from\_scf\_input\<close>

lemma read_qpt_Some:
  "qpt_of p = Some q \<Longrightarrow> getitem (input p) ''qpt'' = Inr (Seq q) \<and> tuple (Seq q) = Inr q"
  by (auto simp: qpt_of_def getitem_def tuple_def split: option.splits pyval.splits)

lemma read_qpt_None:
  "qpt_of p = None \<Longrightarrow>
     (case getitem (input p) ''qpt'' of Inl e \<Rightarrow> Inl e | Inr v \<Rightarrow>
        (case tuple v of Inl e \<Rightarrow> Inl e | Inr q \<Rightarrow> f q)) =
     Inl (if input p ''qpt'' = None then KeyError ''qpt'' else TypeError)"
  by (auto simp: qpt_of_def getitem_def tuple_def split: option.splits pyval.splits)

lemma eph_loop_Inr:
  assumes "\<forall>p\<in>set ph. qpt_of p \<noteq> None"
  shows "eph_loop im scf ng qm qp S w ph =
     Inr (w\<lparr>tasks := tasks w @
            map (\<lambda>(q, p). \<lparr>kind = EphTask, input = make_eph_input im scf ng q,
                            deps = deps p @ dict_of [(Obj qm, Str ''DDB''), (Obj qp, Str ''DVDB'')],
                            status = Init\<rparr>)
                (first_seen S ph)\<rparr>)"
  using assms
proof (induction ph arbitrary: S w)
  case Nil
  then show ?case by simp
next
  case (Cons p ph)
  then obtain q where q: "qpt_of p = Some q" by auto
  from Cons.prems have rest: "\<forall>p\<in>set ph. qpt_of p \<noteq> None" by simp
  note rd = read_qpt_Some [OF q]
  show ?case
  proof (cases "q \<in> S")
    case True
    then show ?thesis
      using Cons.IH [OF rest, of S w] by (simp add: rd q)
  next
    case False
    then show ?thesis
      using Cons.IH [OF rest]
      by (simp add: rd q register_eph_task_def register_task_def add_deps_def)
  qed
qed

lemma eph_loop_defined:
  assumes "eph_loop im scf ng qm qp S w ph = Inr w'"
  shows "\<forall>p\<in>set ph. qpt_of p \<noteq> None"
  using assms
proof (induction ph arbitrary: S w)
  case Nil
  then show ?case by simp
next
  case (Cons p ph)
  show ?case
  proof (cases "qpt_of p")
    case None
    from Cons.prems show ?thesis
      by (simp add: read_qpt_None [OF None])
  next
    case (Some q)
    note rd = read_qpt_Some [OF Some]
    from Cons.prems obtain S2 w2 where "eph_loop im scf ng qm qp S2 w2 ph = Inr w'"
      by (auto simp: rd split: if_splits prod.splits)
    from Cons.IH [OF this] Some show ?thesis by simp
  qed
qed

lemma inteph_loop_Inr:
  assumes "\<forall>p\<in>set ph. qpt_of p \<noteq> None"
  shows "inteph_loop im scf ng qm S w ph =
     Inr (w\<lparr>tasks := tasks w @
            map (\<lambda>(q, p). \<lparr>kind = EphTask,
                            input = (make_eph_input im scf ng q)(''eph_use_ftinterp'' \<mapsto> Num 1),
                            deps = deps p @ dict_of [(Obj qm, StrList [''DDB'', ''DVDB''])],
                            status = Init\<rparr>)
                (first_seen S ph)\<rparr>)"
  using assms
proof (induction ph arbitrary: S w)
  case Nil
  then show ?case by simp
next
  case (Cons p ph)
  then obtain q where q: "qpt_of p = Some q" by auto
  from Cons.prems have rest: "\<forall>p\<in>set ph. qpt_of p \<noteq> None" by simp
  note rd = read_qpt_Some [OF q]
  show ?case
  proof (cases "q \<in> S")
    case True
    then show ?thesis
      using Cons.IH [OF rest, of S w] by (simp add: rd q)
  next
    case False
    then show ?thesis
      using Cons.IH [OF rest]
      by (simp add: rd q register_eph_task_def register_task_def add_deps_def Let_def
          del: fun_upd_apply)
  qed
qed

lemma eph_loop_repeat:
  assumes "qpt_of p = Some q" and "q \<in> S \<or> Some q \<in> qpt_of ` set ph1"
  shows "eph_loop im scf ng qm qp S w (ph1 @ p # ph2) = eph_loop im scf ng qm qp S w (ph1 @ ph2)"
  using assms(2)
proof (induction ph1 arbitrary: S w)
  case Nil
  then show ?case
    using read_qpt_Some [OF assms(1)] by simp
next
  case (Cons a ph1)
  show ?case
  proof (cases "qpt_of a")
    case None
    then show ?thesis
      by (simp add: read_qpt_None [OF None])
  next
    case (Some qa)
    note rd = read_qpt_Some [OF Some]
    show ?thesis
    proof (cases "qa \<in> S")
      case True
      from Cons.prems Some True have "q \<in> S \<or> Some q \<in> qpt_of ` set ph1" by auto
      from Cons.IH [OF this] True show ?thesis by (simp add: rd)
    next
      case False
      from Cons.prems Some have "q \<in> insert qa S \<or> Some q \<in> qpt_of ` set ph1" by auto
      from Cons.IH [OF this] False show ?thesis
        by (simp add: rd split: prod.splits)
    qed
  qed
qed

lemma first_seen_fst:
  "fst ` set (first_seen S ph) = {q. Some q \<in> qpt_of ` set ph} - S"
proof (induction ph arbitrary: S)
  case Nil
  then show ?case by simp
next
  case (Cons p ph)
  show ?case
  proof (cases "qpt_of p")
    case None
    then show ?thesis
      using Cons.IH [of S] by (auto simp: image_iff)
  next
    case (Some q)
    show ?thesis
    proof (cases "q \<in> S")
      case True
      then show ?thesis
        using Cons.IH [of S] Some by (auto simp: image_iff)
    next
      case False
      then show ?thesis
        using Cons.IH [of "insert q S"] Some by (auto simp: image_iff)
    qed
  qed
qed

lemma first_seen_distinct: "distinct (map fst (first_seen S ph))"
proof (induction ph arbitrary: S)
  case Nil
  then show ?case by simp
next
  case (Cons p ph)
  show ?case
  proof (cases "qpt_of p")
    case None
    then show ?thesis using Cons.IH by simp
  next
    case (Some q)
    have "q \<notin> fst ` set (first_seen (insert q S) ph)"
      by (simp add: first_seen_fst)
    then show ?thesis
      using Cons.IH Some by simp
  qed
qed

lemma first_seen_find:
  assumes "(q, p) \<in> set (first_seen S ph)"
  shows "find (\<lambda>p'. qpt_of p' = Some q) ph = Some p"
  using assms
proof (induction ph arbitrary: S)
  case Nil
  then show ?case by simp
next
  case (Cons p0 ph)
  show ?case
  proof (cases "qpt_of p0")
    case None
    with Cons show ?thesis by simp
  next
    case (Some q0)
    show ?thesis
    proof (cases "q0 \<in> S")
      case True
      with Cons.prems Some have in_rest: "(q, p) \<in> set (first_seen S ph)" by simp
      then have "q \<in> fst ` set (first_seen S ph)" by force
      then have "q \<notin> S" by (simp add: first_seen_fst)
      with True have "q0 \<noteq> q" by auto
      with Cons.IH [OF in_rest] Some show ?thesis by simp
    next
      case False
      show ?thesis
      proof (cases "q0 = q")
        case True
        have "q \<notin> fst ` set (first_seen (insert q S) ph)"
          by (simp add: first_seen_fst)
        with Cons.prems Some False True have "p = p0" by force
        with Some True show ?thesis by simp
      next
        case neq: False
        with Cons.prems Some False have "(q, p) \<in> set (first_seen (insert q0 S) ph)" by auto
        from Cons.IH [OF this] Some neq show ?thesis by simp
      qed
    qed
  qed
qed

lemma first_seen_keys:
  assumes "\<forall>p\<in>set ph. qpt_of p \<noteq> None"
  shows "set (map (Some \<circ> fst) (first_seen {} ph)) = qpt_of ` set ph"
proof -
  have "set (map (Some \<circ> fst) (first_seen {} ph)) = Some ` (fst ` set (first_seen {} ph))"
    by (simp add: image_comp)
  also have "\<dots> = Some ` {q. Some q \<in> qpt_of ` set ph}"
    by (simp add: first_seen_fst)
  also have "\<dots> = qpt_of ` set ph"
    using assms by (auto simp: image_iff) (metis not_None_eq)
  finally show ?thesis .
qed

lemma first_seen_keys_distinct: "distinct (map (Some \<circ> fst) (first_seen S ph))"
  using first_seen_distinct [of S ph]
  by (simp add: distinct_map comp_def inj_on_def)

lemma count_distinct_key:
  assumes "distinct (map f xs)"
  shows "length (filter (\<lambda>x. f x = k) xs) = (if k \<in> f ` set xs then 1 else 0)"
  using assms
proof (induction xs)
  case Nil
  then show ?case by simp
next
  case (Cons x xs)
  then show ?case by (auto simp: image_iff)
qed

lemma count_by_qpt:
  assumes "distinct (map qpt_of ts)" and "k \<in> set (map qpt_of ts)"
  shows "length (filter (\<lambda>t. qpt_of t = k) ts) = 1"
  using count_distinct_key [OF assms(1), of k] assms(2) by simp

lemma count_append_2:
  assumes "length (filter P xs) = 1" and "length (filter P ys) = 1"
  shows "length (filter P (xs @ ys)) = 2"
  using assms by simp

lemma drop3_of_5: "length xs = 5 \<Longrightarrow> drop 3 xs = [xs ! 3, xs ! 4]"
proof -
  assume len: "length xs = 5"
  then obtain a b c d e where "xs = [a, b, c, d, e]"
    by (auto simp: length_Suc_conv eval_nat_numeral)
  then show ?thesis by simp
qed

section \<open>The flow of GkqPathFlow.from\_scf\_input\<close>

lemma gkq_unfold:
  "GkqPathFlow_from_scf_input mk scf ng qpath_list wb ft =
     (case eph_loop (inputs mk) scf ng (WorkRef 1) (WorkRef 2) {} \<lparr>wid = 3, tasks = []\<rparr>
             (gkq_phonon_tasks mk qpath_list) of
        Inl e \<Rightarrow> Inl e
      | Inr ew \<Rightarrow>
          (if ft
           then (case inteph_loop (inputs mk) scf ng (WorkRef 1) {} \<lparr>wid = 4, tasks = []\<rparr>
                        (gkq_phonon_tasks mk qpath_list) of
                   Inl e \<Rightarrow> Inl e
                 | Inr iw \<Rightarrow>
                     Inr \<lparr>works =
                       [\<lparr>wid = 0, tasks = [\<lparr>kind = ScfTask, input = scf, deps = [], status = Init\<rparr>]\<rparr>,
                        \<lparr>wid = 1, tasks = PhononWork_from_scf_task mk 1 (TaskRef 0 0) ng True wb\<rparr>,
                        \<lparr>wid = 2, tasks = fst (PhononWfkqWork_from_scf_task mk 2 (TaskRef 0 0) qpath_list)\<rparr>,
                        ew, iw]\<rparr>)
           else Inr \<lparr>works =
                       [\<lparr>wid = 0, tasks = [\<lparr>kind = ScfTask, input = scf, deps = [], status = Init\<rparr>]\<rparr>,
                        \<lparr>wid = 1, tasks = PhononWork_from_scf_task mk 1 (TaskRef 0 0) ng True wb\<rparr>,
                        \<lparr>wid = 2, tasks = fst (PhononWfkqWork_from_scf_task mk 2 (TaskRef 0 0) qpath_list)\<rparr>,
                        ew]\<rparr>))"
  by (simp add: GkqPathFlow_from_scf_input_def flow_register_scf_task_def register_work_def
      register_scf_task_def register_task_def work_getitem_def Work_def Let_def
      gkq_phonon_tasks_def eval_nat_numeral split: prod.splits sum.splits)

lemma gkq_result:
  assumes "\<forall>p\<in>set (gkq_phonon_tasks mk qpath_list). qpt_of p \<noteq> None"
  shows "GkqPathFlow_from_scf_input mk scf ng qpath_list wb ft =
     Inr \<lparr>works =
       [\<lparr>wid = 0, tasks = [\<lparr>kind = ScfTask, input = scf, deps = [], status = Init\<rparr>]\<rparr>,
        \<lparr>wid = 1, tasks = PhononWork_from_scf_task mk 1 (TaskRef 0 0) ng True wb\<rparr>,
        \<lparr>wid = 2, tasks = fst (PhononWfkqWork_from_scf_task mk 2 (TaskRef 0 0) qpath_list)\<rparr>,
        \<lparr>wid = 3, tasks =
           map (\<lambda>(q, p). \<lparr>kind = EphTask, input = make_eph_input (inputs mk) scf ng q,
                           deps = deps p @ [(Obj (WorkRef 1), Str ''DDB''), (Obj (WorkRef 2), Str ''DVDB'')],
                           status = Init\<rparr>)
               (first_seen {} (gkq_phonon_tasks mk qpath_list))\<rparr>] @
       (if ft
        then [\<lparr>wid = 4, tasks =
                 map (\<lambda>(q, p). \<lparr>kind = EphTask,
                                 input = (make_eph_input (inputs mk) scf ng q)(''eph_use_ftinterp'' \<mapsto> Num 1),
                                 deps = deps p @ [(Obj (WorkRef 1), StrList [''DDB'', ''DVDB''])],
                                 status = Init\<rparr>)
                     (first_seen {} (gkq_phonon_tasks mk qpath_list))\<rparr>]
        else [])\<rparr>"
  by (simp add: gkq_unfold eph_loop_Inr [OF assms] inteph_loop_Inr [OF assms]
      dict_of_pair dict_of_single del: fun_upd_apply)

lemma gkq_defined:
  assumes "GkqPathFlow_from_scf_input mk scf ng qpath_list wb ft = Inr fl"
  shows "\<forall>p\<in>set (gkq_phonon_tasks mk qpath_list). qpt_of p \<noteq> None"
proof -
  from assms obtain ew where
    "eph_loop (inputs mk) scf ng (WorkRef 1) (WorkRef 2) {} \<lparr>wid = 3, tasks = []\<rparr>
        (gkq_phonon_tasks mk qpath_list) = Inr ew"
    unfolding gkq_unfold by (auto split: sum.splits)
  from eph_loop_defined [OF this] show ?thesis .
qed

lemma gkq_works:
  assumes "GkqPathFlow_from_scf_input mk scf ng qpath_list wb ft = Inr fl"
  shows "length (works fl) = (if ft then 5 else 4)"
    and "works fl ! 0 = \<lparr>wid = 0, tasks = [\<lparr>kind = ScfTask, input = scf, deps = [], status = Init\<rparr>]\<rparr>"
    and "wid (work_qmesh_of fl) = 1" and "wid (work_qpath_of fl) = 2"
    and "eph_work_of fl =
          \<lparr>wid = 3, tasks =
             map (\<lambda>(q, p). \<lparr>kind = EphTask, input = make_eph_input (inputs mk) scf ng q,
                           deps = deps p @ [(Obj (WorkRef 1), Str ''DDB''), (Obj (WorkRef 2), Str ''DVDB'')],
                           status = Init\<rparr>)
               (first_seen {} (gkq_phonon_tasks mk qpath_list))\<rparr>"
    and "ft \<Longrightarrow> inteph_work_of fl =
          \<lparr>wid = 4, tasks =
                 map (\<lambda>(q, p). \<lparr>kind = EphTask,
                                 input = (make_eph_input (inputs mk) scf ng q)(''eph_use_ftinterp'' \<mapsto> Num 1),
                                 deps = deps p @ [(Obj (WorkRef 1), StrList [''DDB'', ''DVDB''])],
                                 status = Init\<rparr>)
                     (first_seen {} (gkq_phonon_tasks mk qpath_list))\<rparr>"
  using assms gkq_result [OF gkq_defined [OF assms], of scf ng wb ft]
  by (auto simp: work_qmesh_of_def work_qpath_of_def eph_work_of_def inteph_work_of_def
      simp del: fun_upd_apply)

lemma qpt_of_eph_task:
  "qpt_of \<lparr>kind = k, input = make_eph_input im scf ng q, deps = d, status = s\<rparr> = Some q"
  by (simp add: qpt_of_def make_eph_input_def new_with_vars_def)

lemma qpt_of_inteph_task:
  "qpt_of \<lparr>kind = k, input = (make_eph_input im scf ng q)(''eph_use_ftinterp'' \<mapsto> Num 1),
           deps = d, status = s\<rparr> = Some q"
  by (simp add: qpt_of_def make_eph_input_def new_with_vars_def)

lemma gkq_qpts:
  assumes "GkqPathFlow_from_scf_input mk scf ng qpath_list wb ft = Inr fl"
  shows "map qpt_of (tasks (eph_work_of fl)) =
           map (Some \<circ> fst) (first_seen {} (gkq_phonon_tasks mk qpath_list))"
    and "ft \<Longrightarrow> map qpt_of (tasks (inteph_work_of fl)) =
           map (Some \<circ> fst) (first_seen {} (gkq_phonon_tasks mk qpath_list))"
  by (auto simp: gkq_works(5,6) [OF assms] qpt_of_eph_task qpt_of_inteph_task
      simp del: fun_upd_apply split: prod.splits)

lemma gkq_eph_summary:
  assumes "GkqPathFlow_from_scf_input mk scf ng qpath_list wb ft = Inr fl"
  shows "distinct (map qpt_of (tasks (eph_work_of fl)))"
    and "set (map qpt_of (tasks (eph_work_of fl))) = qpt_of ` set (gkq_phonon_tasks mk qpath_list)"
    and "ft \<Longrightarrow> distinct (map qpt_of (tasks (inteph_work_of fl)))"
    and "ft \<Longrightarrow> set (map qpt_of (tasks (inteph_work_of fl))) = qpt_of ` set (gkq_phonon_tasks mk qpath_list)"
  using gkq_qpts [OF assms] first_seen_keys [OF gkq_defined [OF assms]]
    first_seen_keys_distinct [of "{}" "gkq_phonon_tasks mk qpath_list"]
  by simp_all

lemma gkq_kinds:
  assumes "GkqPathFlow_from_scf_input mk scf ng qpath_list wb ft = Inr fl"
  shows "\<forall>t\<in>set (tasks (eph_work_of fl)). kind t = EphTask"
    and "ft \<Longrightarrow> \<forall>t\<in>set (tasks (inteph_work_of fl)). kind t = EphTask"
  by (auto simp: gkq_works(5,6) [OF assms] simp del: fun_upd_apply)

lemma gkq_eph_task_origin:
  assumes "GkqPathFlow_from_scf_input mk scf ng qpath_list wb ft = Inr fl"
    and "t \<in> set (tasks (eph_work_of fl))"
  shows "\<exists>q p. qpt_of t = Some q \<and> find (\<lambda>p'. qpt_of p' = Some q) (gkq_phonon_tasks mk qpath_list) = Some p \<and>
           kind t = EphTask \<and> input t = make_eph_input (inputs mk) scf ng q \<and>
           deps t = deps p @ [(Obj (WorkRef 1), Str ''DDB''), (Obj (WorkRef 2), Str ''DVDB'')]"
proof -
  from assms(2) obtain q p where qp: "(q, p) \<in> set (first_seen {} (gkq_phonon_tasks mk qpath_list))"
    and t: "t = \<lparr>kind = EphTask, input = make_eph_input (inputs mk) scf ng q,
                deps = deps p @ [(Obj (WorkRef 1), Str ''DDB''), (Obj (WorkRef 2), Str ''DVDB'')],
                status = Init\<rparr>"
    unfolding gkq_works(5) [OF assms(1)] by auto
  from first_seen_find [OF qp] show ?thesis
    by (auto simp: t qpt_of_eph_task)
qed

lemma gkq_inteph_task_origin:
  assumes "GkqPathFlow_from_scf_input mk scf ng qpath_list wb True = Inr fl"
    and "t \<in> set (tasks (inteph_work_of fl))"
  shows "\<exists>q p. qpt_of t = Some q \<and> find (\<lambda>p'. qpt_of p' = Some q) (gkq_phonon_tasks mk qpath_list) = Some p \<and>
           kind t = EphTask \<and> input t = (make_eph_input (inputs mk) scf ng q)(''eph_use_ftinterp'' \<mapsto> Num 1) \<and>
           deps t = deps p @ [(Obj (WorkRef 1), StrList [''DDB'', ''DVDB''])]"
proof -
  from assms(2) obtain q p where qp: "(q, p) \<in> set (first_seen {} (gkq_phonon_tasks mk qpath_list))"
    and t: "t = \<lparr>kind = EphTask, input = (make_eph_input (inputs mk) scf ng q)(''eph_use_ftinterp'' \<mapsto> Num 1),
                deps = deps p @ [(Obj (WorkRef 1), StrList [''DDB'', ''DVDB''])],
                status = Init\<rparr>"
    unfolding gkq_works(6) [OF assms(1) TrueI] by auto
  from first_seen_find [OF qp] show ?thesis
    by (auto simp: t qpt_of_inteph_task simp del: fun_upd_apply)
qed

lemma example_phonon_tasks:
  "gkq_phonon_tasks example_work_makers example_qpath =
     [\<lparr>kind = PhononTask, input = [''qpt'' \<mapsto> Seq [1 / 2, 0, 0], ''rfatpol'' \<mapsto> Seq [1, 1]],
       deps = [(Obj (TaskRef 0 0), Str ''WFK''), (Obj (TaskRef 2 0), Str ''WFQ'')], status = Init\<rparr>,
      \<lparr>kind = PhononTask, input = [''qpt'' \<mapsto> Seq [1 / 2, 0, 0], ''rfatpol'' \<mapsto> Seq [2, 2]],
       deps = [(Obj (TaskRef 0 0), Str ''WFK''), (Obj (TaskRef 2 0), Str ''WFQ'')], status = Init\<rparr>,
      \<lparr>kind = PhononTask, input = [''qpt'' \<mapsto> Seq [0, 0, 0], ''rfatpol'' \<mapsto> Seq [1, 1]],
       deps = [(Obj (TaskRef 0 0), Str ''WFK''), (Obj (TaskRef 2 3), Str ''WFQ'')], status = Init\<rparr>,
      \<lparr>kind = PhononTask, input = [''qpt'' \<mapsto> Seq [0, 0, 0], ''rfatpol'' \<mapsto> Seq [2, 2]],
       deps = [(Obj (TaskRef 0 0), Str ''WFK''), (Obj (TaskRef 2 3), Str ''WFQ'')], status = Init\<rparr>,
      \<lparr>kind = PhononTask, input = [''qpt'' \<mapsto> Seq [1 / 2, 0, 0], ''rfatpol'' \<mapsto> Seq [1, 1]],
       deps = [(Obj (TaskRef 0 0), Str ''WFK''), (Obj (TaskRef 2 6), Str ''WFQ'')], status = Init\<rparr>,
      \<lparr>kind = PhononTask, input = [''qpt'' \<mapsto> Seq [1 / 2, 0, 0], ''rfatpol'' \<mapsto> Seq [2, 2]],
       deps = [(Obj (TaskRef 0 0), Str ''WFK''), (Obj (TaskRef 2 6), Str ''WFQ'')], status = Init\<rparr>]"
  by (simp add: gkq_phonon_tasks_def example_work_makers_def example_qpath_def)

lemma example_qpts:
  "map qpt_of (gkq_phonon_tasks example_work_makers example_qpath) =
     [Some [1 / 2, 0, 0], Some [1 / 2, 0, 0], Some [0, 0, 0], Some [0, 0, 0],
      Some [1 / 2, 0, 0], Some [1 / 2, 0, 0]]"
  by (simp add: example_phonon_tasks qpt_of_def)

lemma example_defined:
  "\<forall>p\<in>set (gkq_phonon_tasks example_work_makers example_qpath). qpt_of p \<noteq> None"
  by (simp add: example_phonon_tasks qpt_of_def)

lemma example_physically_equivalent: "physically_equivalent [1 / 2, 0, 0] [3 / 2, 0, 0]"
  by (simp add: physically_equivalent_def)

lemma equivalent_defined:
  "\<forall>p\<in>set (gkq_phonon_tasks example_work_makers equivalent_qpath). qpt_of p \<noteq> None"
  by (simp add: gkq_phonon_tasks_def example_work_makers_def equivalent_qpath_def qpt_of_def)

lemma equivalent_first_seen:
  "map fst (first_seen {} (gkq_phonon_tasks example_work_makers equivalent_qpath)) =
     [[1 / 2, 0, 0], [3 / 2, 0, 0]]"
  by (simp add: gkq_phonon_tasks_def example_work_makers_def equivalent_qpath_def qpt_of_def)

text \<open>
  C1. When every task of \<open>work_qpath.phonon_tasks\<close> has a q-point tuple,
  \<open>GkqPathFlow.from_scf_input\<close> returns a flow in which, for every phonon task, exactly one
  task of \<open>eph_work\<close> has the q-point tuple of that phonon task, and exactly one task of
  \<open>inteph_work\<close> when \<open>test_ft_interpolation\<close> holds; every task of these works is an eph
  task for the q-point of some phonon task. In both loops a phonon task whose q-point tuple
  is in \<open>qseen\<close> adds nothing: the loop goes on as if the task were not in the list.
\<close>

theorem GkqPathFlow_one_eph_task_per_qpoint:
  assumes "\<forall>p\<in>set (gkq_phonon_tasks mk qpath_list). qpt_of p \<noteq> None"
  shows "(\<exists>fl. GkqPathFlow_from_scf_input mk scf_input ngqpt qpath_list with_becs test_ft_interpolation = Inr fl \<and>
            (\<forall>p\<in>set (gkq_phonon_tasks mk qpath_list).
               length (filter (\<lambda>t. qpt_of t = qpt_of p) (tasks (eph_work_of fl))) = 1 \<and>
               (test_ft_interpolation \<longrightarrow>
                  length (filter (\<lambda>t. qpt_of t = qpt_of p) (tasks (inteph_work_of fl))) = 1)) \<and>
            (\<forall>t\<in>set (tasks (eph_work_of fl)).
               kind t = EphTask \<and> qpt_of t \<in> qpt_of ` set (gkq_phonon_tasks mk qpath_list)) \<and>
            (test_ft_interpolation \<longrightarrow>
               (\<forall>t\<in>set (tasks (inteph_work_of fl)).
                  kind t = EphTask \<and> qpt_of t \<in> qpt_of ` set (gkq_phonon_tasks mk qpath_list)))) \<and>
         (qpt_of task = Some qpt \<and> qpt \<in> qseen \<longrightarrow>
            eph_loop im scf_input ngqpt work_qmesh work_qpath qseen eph_work (task # rest) =
              eph_loop im scf_input ngqpt work_qmesh work_qpath qseen eph_work rest \<and>
            inteph_loop im scf_input ngqpt work_qmesh qseen inteph_work (task # rest) =
              inteph_loop im scf_input ngqpt work_qmesh qseen inteph_work rest)"
proof (intro conjI impI)
  from gkq_result [OF assms, of scf_input ngqpt with_becs test_ft_interpolation]
  obtain fl where fl: "GkqPathFlow_from_scf_input mk scf_input ngqpt qpath_list with_becs test_ft_interpolation = Inr fl"
    by blast
  note sm = gkq_eph_summary [OF fl] and kd = gkq_kinds [OF fl]
  have one: "\<forall>p\<in>set (gkq_phonon_tasks mk qpath_list).
               length (filter (\<lambda>t. qpt_of t = qpt_of p) (tasks (eph_work_of fl))) = 1"
    using count_by_qpt [OF sm(1)] sm(2) by simp
  have two: "test_ft_interpolation \<Longrightarrow> \<forall>p\<in>set (gkq_phonon_tasks mk qpath_list).
               length (filter (\<lambda>t. qpt_of t = qpt_of p) (tasks (inteph_work_of fl))) = 1"
    using count_by_qpt [OF sm(3)] sm(4) by simp
  have three: "\<forall>t\<in>set (tasks (eph_work_of fl)). qpt_of t \<in> qpt_of ` set (gkq_phonon_tasks mk qpath_list)"
    using sm(2) by auto
  have four: "test_ft_interpolation \<Longrightarrow>
      \<forall>t\<in>set (tasks (inteph_work_of fl)). qpt_of t \<in> qpt_of ` set (gkq_phonon_tasks mk qpath_list)"
    using sm(4) by auto
  show "\<exists>fl. GkqPathFlow_from_scf_input mk scf_input ngqpt qpath_list with_becs test_ft_interpolation = Inr fl \<and>
            (\<forall>p\<in>set (gkq_phonon_tasks mk qpath_list).
               length (filter (\<lambda>t. qpt_of t = qpt_of p) (tasks (eph_work_of fl))) = 1 \<and>
               (test_ft_interpolation \<longrightarrow>
                  length (filter (\<lambda>t. qpt_of t = qpt_of p) (tasks (inteph_work_of fl))) = 1)) \<and>
            (\<forall>t\<in>set (tasks (eph_work_of fl)).
               kind t = EphTask \<and> qpt_of t \<in> qpt_of ` set (gkq_phonon_tasks mk qpath_list)) \<and>
            (test_ft_interpolation \<longrightarrow>
               (\<forall>t\<in>set (tasks (inteph_work_of fl)).
                  kind t = EphTask \<and> qpt_of t \<in> qpt_of ` set (gkq_phonon_tasks mk qpath_list)))"
    using fl one two three four kd by blast
next
  assume seen: "qpt_of task = Some qpt \<and> qpt \<in> qseen"
  then show "eph_loop im scf_input ngqpt work_qmesh work_qpath qseen eph_work (task # rest) =
              eph_loop im scf_input ngqpt work_qmesh work_qpath qseen eph_work rest"
    using read_qpt_Some [of task qpt] by simp
  from seen show "inteph_loop im scf_input ngqpt work_qmesh qseen inteph_work (task # rest) =
              inteph_loop im scf_input ngqpt work_qmesh qseen inteph_work rest"
    using read_qpt_Some [of task qpt] by simp
qed

theorem GkqPathFlow_one_eph_task_per_qpoint_witness:
  "(\<exists>fl. GkqPathFlow_from_scf_input example_work_makers example_scf_input (Seq [2, 2, 2]) example_qpath
            False True = Inr fl \<and>
      length (filter (\<lambda>t. qpt_of t = Some [1 / 2, 0, 0]) (tasks (eph_work_of fl))) = 1 \<and>
      length (filter (\<lambda>t. qpt_of t = Some [0, 0, 0]) (tasks (eph_work_of fl))) = 1 \<and>
      length (filter (\<lambda>t. qpt_of t = Some [1 / 2, 0, 0]) (tasks (inteph_work_of fl))) = 1 \<and>
      length (filter (\<lambda>t. qpt_of t = Some [0, 0, 0]) (tasks (inteph_work_of fl))) = 1) \<and>
   eph_loop example_makers example_scf_input (Seq [2, 2, 2]) (WorkRef 1) (WorkRef 2) {[0, 0, 0]} (Work 3)
      [\<lparr>kind = PhononTask, input = [''qpt'' \<mapsto> Seq [0, 0, 0]], deps = [], status = Init\<rparr>] =
     Inr (Work 3) \<and>
   inteph_loop example_makers example_scf_input (Seq [2, 2, 2]) (WorkRef 1) {[0, 0, 0]} (Work 4)
      [\<lparr>kind = PhononTask, input = [''qpt'' \<mapsto> Seq [0, 0, 0]], deps = [], status = Init\<rparr>] =
     Inr (Work 4)"
proof (intro conjI)
  have qs: "qpt_of ` set (gkq_phonon_tasks example_work_makers example_qpath) =
              {Some [1 / 2, 0, 0], Some [0, 0, 0]}"
    using arg_cong [OF example_qpts, of set] by (simp add: insert_commute)
  from GkqPathFlow_one_eph_task_per_qpoint [OF example_defined,
      where scf_input = example_scf_input and ngqpt = "Seq [2, 2, 2]" and with_becs = False
        and test_ft_interpolation = True, THEN conjunct1]
  obtain fl where
    fl: "GkqPathFlow_from_scf_input example_work_makers example_scf_input (Seq [2, 2, 2]) example_qpath
            False True = Inr fl"
    and one: "\<forall>p\<in>set (gkq_phonon_tasks example_work_makers example_qpath).
               length (filter (\<lambda>t. qpt_of t = qpt_of p) (tasks (eph_work_of fl))) = 1 \<and>
               length (filter (\<lambda>t. qpt_of t = qpt_of p) (tasks (inteph_work_of fl))) = 1"
    by auto
  from one have "\<forall>k\<in>qpt_of ` set (gkq_phonon_tasks example_work_makers example_qpath).
               length (filter (\<lambda>t. qpt_of t = k) (tasks (eph_work_of fl))) = 1 \<and>
               length (filter (\<lambda>t. qpt_of t = k) (tasks (inteph_work_of fl))) = 1"
    by blast
  then show "\<exists>fl. GkqPathFlow_from_scf_input example_work_makers example_scf_input (Seq [2, 2, 2]) example_qpath
            False True = Inr fl \<and>
      length (filter (\<lambda>t. qpt_of t = Some [1 / 2, 0, 0]) (tasks (eph_work_of fl))) = 1 \<and>
      length (filter (\<lambda>t. qpt_of t = Some [0, 0, 0]) (tasks (eph_work_of fl))) = 1 \<and>
      length (filter (\<lambda>t. qpt_of t = Some [1 / 2, 0, 0]) (tasks (inteph_work_of fl))) = 1 \<and>
      length (filter (\<lambda>t. qpt_of t = Some [0, 0, 0]) (tasks (inteph_work_of fl))) = 1"
    unfolding qs using fl by simp
next
  have h: "qpt_of \<lparr>kind = PhononTask, input = [''qpt'' \<mapsto> Seq [0, 0, 0]], deps = [], status = Init\<rparr>
             = Some [0, 0, 0] \<and> [0, 0, 0] \<in> {[0, 0, 0 :: rat]}"
    by (simp add: qpt_of_def)
  note step = GkqPathFlow_one_eph_task_per_qpoint [OF example_defined,
      where scf_input = example_scf_input and ngqpt = "Seq [2, 2, 2]" and with_becs = False
        and test_ft_interpolation = True and im = example_makers, THEN conjunct2, rule_format, OF h]
  show "eph_loop example_makers example_scf_input (Seq [2, 2, 2]) (WorkRef 1) (WorkRef 2) {[0, 0, 0]} (Work 3)
      [\<lparr>kind = PhononTask, input = [''qpt'' \<mapsto> Seq [0, 0, 0]], deps = [], status = Init\<rparr>] =
     Inr (Work 3)"
    using step [THEN conjunct1, of "WorkRef 1" "WorkRef 2" "Work 3" "[]"] by simp
  show "inteph_loop example_makers example_scf_input (Seq [2, 2, 2]) (WorkRef 1) {[0, 0, 0]} (Work 4)
      [\<lparr>kind = PhononTask, input = [''qpt'' \<mapsto> Seq [0, 0, 0]], deps = [], status = Init\<rparr>] =
     Inr (Work 4)"
    using step [THEN conjunct2, of "WorkRef 1" "Work 4" "[]"] by simp
qed

text \<open>
  C2 as the spec states it fails: the q-points \<open>(1/2, 0, 0)\<close> and \<open>(3/2, 0, 0)\<close> differ by a
  reciprocal lattice vector, and \<open>eph_work\<close> gets one eph task for each of them.
\<close>

theorem GkqPathFlow_equivalent_qpoints_counterexample:
  "physically_equivalent [1 / 2, 0, 0] [3 / 2, 0, 0] \<and>
   \<not> isl (GkqPathFlow_from_scf_input example_work_makers example_scf_input (Seq [2, 2, 2])
            equivalent_qpath False True) \<and>
   map qpt_of (tasks (eph_work_of (projr
      (GkqPathFlow_from_scf_input example_work_makers example_scf_input (Seq [2, 2, 2])
            equivalent_qpath False True)))) = [Some [1 / 2, 0, 0], Some [3 / 2, 0, 0]]"
proof -
  from gkq_result [OF equivalent_defined, of example_scf_input "Seq [2, 2, 2]" False True]
  obtain fl where
    fl: "GkqPathFlow_from_scf_input example_work_makers example_scf_input (Seq [2, 2, 2])
            equivalent_qpath False True = Inr fl"
    by blast
  have "map qpt_of (tasks (eph_work_of fl)) = [Some [1 / 2, 0, 0], Some [3 / 2, 0, 0]]"
    using gkq_qpts(1) [OF fl] arg_cong [OF equivalent_first_seen, of "map Some"] by simp
  with example_physically_equivalent show ?thesis
    by (simp add: fl)
qed

text \<open>
  C2, amended. In the flow that \<open>GkqPathFlow.from_scf_input\<close> returns, the eph tasks of
  \<open>eph_work\<close> have pairwise different q-point tuples, and these tuples are the tuples of the
  phonon tasks: phonon tasks with equal tuples share one eph task, and phonon tasks with
  different tuples have different eph tasks, whether or not the q-points are physically
  equivalent. The eph task of a tuple has the dependencies of the first phonon task with that
  tuple, followed by the two items that the loop adds. A phonon task whose tuple is the tuple
  of an earlier task of the list changes nothing in the result of the loop.
\<close>

theorem GkqPathFlow_dedup_by_tuple_equality:
  assumes "GkqPathFlow_from_scf_input mk scf_input ngqpt qpath_list with_becs test_ft_interpolation = Inr fl"
  shows "distinct (map qpt_of (tasks (eph_work_of fl))) \<and>
         set (map qpt_of (tasks (eph_work_of fl))) = qpt_of ` set (gkq_phonon_tasks mk qpath_list) \<and>
         (\<forall>t\<in>set (tasks (eph_work_of fl)).
            \<exists>q p. qpt_of t = Some q \<and>
              find (\<lambda>p'. qpt_of p' = Some q) (gkq_phonon_tasks mk qpath_list) = Some p \<and>
              deps t = deps p @ [(Obj (WorkRef 1), Str ''DDB''), (Obj (WorkRef 2), Str ''DVDB'')]) \<and>
         (\<forall>p1\<in>set (gkq_phonon_tasks mk qpath_list). \<forall>p2\<in>set (gkq_phonon_tasks mk qpath_list).
            qpt_of p1 \<noteq> qpt_of p2 \<longrightarrow>
              (\<exists>t1\<in>set (tasks (eph_work_of fl)). \<exists>t2\<in>set (tasks (eph_work_of fl)).
                 t1 \<noteq> t2 \<and> qpt_of t1 = qpt_of p1 \<and> qpt_of t2 = qpt_of p2)) \<and>
         (qpt_of task = Some qpt \<and> Some qpt \<in> qpt_of ` set earlier \<longrightarrow>
            eph_loop im scf_input ngqpt work_qmesh work_qpath {} eph_work (earlier @ task # later) =
              eph_loop im scf_input ngqpt work_qmesh work_qpath {} eph_work (earlier @ later))"
proof (intro conjI impI ballI)
  note sm = gkq_eph_summary [OF assms]
  show "distinct (map qpt_of (tasks (eph_work_of fl)))"
    by (rule sm(1))
  show "set (map qpt_of (tasks (eph_work_of fl))) = qpt_of ` set (gkq_phonon_tasks mk qpath_list)"
    by (rule sm(2))
  {
    fix t assume "t \<in> set (tasks (eph_work_of fl))"
    from gkq_eph_task_origin [OF assms this]
    show "\<exists>q p. qpt_of t = Some q \<and>
              find (\<lambda>p'. qpt_of p' = Some q) (gkq_phonon_tasks mk qpath_list) = Some p \<and>
              deps t = deps p @ [(Obj (WorkRef 1), Str ''DDB''), (Obj (WorkRef 2), Str ''DVDB'')]"
      by blast
  }
  {
    fix p1 p2
    assume p: "p1 \<in> set (gkq_phonon_tasks mk qpath_list)" "p2 \<in> set (gkq_phonon_tasks mk qpath_list)"
      and ne: "qpt_of p1 \<noteq> qpt_of p2"
    from p sm(2) obtain t1 t2 where
      t: "t1 \<in> set (tasks (eph_work_of fl))" "qpt_of t1 = qpt_of p1"
         "t2 \<in> set (tasks (eph_work_of fl))" "qpt_of t2 = qpt_of p2"
      by (metis (no_types, lifting) image_iff list.set_map)
    with ne have "t1 \<noteq> t2" by auto
    with t show "\<exists>t1\<in>set (tasks (eph_work_of fl)). \<exists>t2\<in>set (tasks (eph_work_of fl)).
                 t1 \<noteq> t2 \<and> qpt_of t1 = qpt_of p1 \<and> qpt_of t2 = qpt_of p2"
      by blast
  }
  assume "qpt_of task = Some qpt \<and> Some qpt \<in> qpt_of ` set earlier"
  then show "eph_loop im scf_input ngqpt work_qmesh work_qpath {} eph_work (earlier @ task # later) =
              eph_loop im scf_input ngqpt work_qmesh work_qpath {} eph_work (earlier @ later)"
    using eph_loop_repeat [of task qpt "{}" earlier] by blast
qed

theorem GkqPathFlow_dedup_by_tuple_equality_witness:
  "(\<exists>fl. GkqPathFlow_from_scf_input example_work_makers example_scf_input (Seq [2, 2, 2]) example_qpath
            False True = Inr fl \<and>
      map qpt_of (tasks (eph_work_of fl)) = [Some [1 / 2, 0, 0], Some [0, 0, 0]] \<and>
      map deps (tasks (eph_work_of fl)) =
        [[(Obj (TaskRef 0 0), Str ''WFK''), (Obj (TaskRef 2 0), Str ''WFQ''),
          (Obj (WorkRef 1), Str ''DDB''), (Obj (WorkRef 2), Str ''DVDB'')],
         [(Obj (TaskRef 0 0), Str ''WFK''), (Obj (TaskRef 2 3), Str ''WFQ''),
          (Obj (WorkRef 1), Str ''DDB''), (Obj (WorkRef 2), Str ''DVDB'')]]) \<and>
   eph_loop example_makers example_scf_input (Seq [2, 2, 2]) (WorkRef 1) (WorkRef 2) {} (Work 3)
      [\<lparr>kind = PhononTask, input = [''qpt'' \<mapsto> Seq [0, 0, 0]], deps = [], status = Init\<rparr>,
       \<lparr>kind = PhononTask, input = [''qpt'' \<mapsto> Seq [0, 0, 0]],
         deps = [(Obj (TaskRef 2 0), Str ''WFQ'')], status = Init\<rparr>] =
   eph_loop example_makers example_scf_input (Seq [2, 2, 2]) (WorkRef 1) (WorkRef 2) {} (Work 3)
      [\<lparr>kind = PhononTask, input = [''qpt'' \<mapsto> Seq [0, 0, 0]], deps = [], status = Init\<rparr>]"
proof (intro conjI)
  from gkq_result [OF example_defined, of example_scf_input "Seq [2, 2, 2]" False True]
  obtain fl where
    fl: "GkqPathFlow_from_scf_input example_work_makers example_scf_input (Seq [2, 2, 2]) example_qpath
            False True = Inr fl"
    by blast
  note c2 = GkqPathFlow_dedup_by_tuple_equality [OF fl, THEN conjunct2, THEN conjunct2, THEN conjunct1]
  have fs: "map fst (first_seen {} (gkq_phonon_tasks example_work_makers example_qpath)) =
              [[1 / 2, 0, 0], [0, 0, 0]]"
    by (simp add: example_phonon_tasks qpt_of_def)
  have e: "map qpt_of (tasks (eph_work_of fl)) = [Some [1 / 2, 0, 0], Some [0, 0, 0]]"
    using gkq_qpts(1) [OF fl] arg_cong [OF fs, of "map Some"] by simp
  then obtain t1 t2 where ts: "tasks (eph_work_of fl) = [t1, t2]"
    and q: "qpt_of t1 = Some [1 / 2, 0, 0]" "qpt_of t2 = Some [0, 0, 0]"
    by (auto simp: map_eq_Cons_conv)
  from c2 ts q have "deps t1 = [(Obj (TaskRef 0 0), Str ''WFK''), (Obj (TaskRef 2 0), Str ''WFQ''),
          (Obj (WorkRef 1), Str ''DDB''), (Obj (WorkRef 2), Str ''DVDB'')]"
    and "deps t2 = [(Obj (TaskRef 0 0), Str ''WFK''), (Obj (TaskRef 2 3), Str ''WFQ''),
          (Obj (WorkRef 1), Str ''DDB''), (Obj (WorkRef 2), Str ''DVDB'')]"
    by (auto simp: example_phonon_tasks qpt_of_def)
  with fl e ts show "\<exists>fl. GkqPathFlow_from_scf_input example_work_makers example_scf_input (Seq [2, 2, 2]) example_qpath
            False True = Inr fl \<and>
      map qpt_of (tasks (eph_work_of fl)) = [Some [1 / 2, 0, 0], Some [0, 0, 0]] \<and>
      map deps (tasks (eph_work_of fl)) =
        [[(Obj (TaskRef 0 0), Str ''WFK''), (Obj (TaskRef 2 0), Str ''WFQ''),
          (Obj (WorkRef 1), Str ''DDB''), (Obj (WorkRef 2), Str ''DVDB'')],
         [(Obj (TaskRef 0 0), Str ''WFK''), (Obj (TaskRef 2 3), Str ''WFQ''),
          (Obj (WorkRef 1), Str ''DDB''), (Obj (WorkRef 2), Str ''DVDB'')]]"
    by simp
next
  have h: "qpt_of \<lparr>kind = PhononTask, input = [''qpt'' \<mapsto> Seq [0, 0, 0]],
         deps = [(Obj (TaskRef 2 0), Str ''WFQ'')], status = Init\<rparr> = Some [0, 0, 0] \<and>
       Some [0, 0, 0] \<in> qpt_of ` set
         [\<lparr>kind = PhononTask, input = [''qpt'' \<mapsto> Seq [0, 0, 0]], deps = [], status = Init\<rparr>]"
    by (simp add: qpt_of_def)
  from gkq_result [OF example_defined, of example_scf_input "Seq [2, 2, 2]" False True]
  obtain fl where
    fl: "GkqPathFlow_from_scf_input example_work_makers example_scf_input (Seq [2, 2, 2]) example_qpath
            False True = Inr fl"
    by blast
  from GkqPathFlow_dedup_by_tuple_equality [OF fl, THEN conjunct2, THEN conjunct2, THEN conjunct2,
      THEN conjunct2, rule_format, OF h, of example_makers "WorkRef 1" "WorkRef 2" "Work 3" "[]"]
  show "eph_loop example_makers example_scf_input (Seq [2, 2, 2]) (WorkRef 1) (WorkRef 2) {} (Work 3)
      [\<lparr>kind = PhononTask, input = [''qpt'' \<mapsto> Seq [0, 0, 0]], deps = [], status = Init\<rparr>,
       \<lparr>kind = PhononTask, input = [''qpt'' \<mapsto> Seq [0, 0, 0]],
         deps = [(Obj (TaskRef 2 0), Str ''WFQ'')], status = Init\<rparr>] =
   eph_loop example_makers example_scf_input (Seq [2, 2, 2]) (WorkRef 1) (WorkRef 2) {} (Work 3)
      [\<lparr>kind = PhononTask, input = [''qpt'' \<mapsto> Seq [0, 0, 0]], deps = [], status = Init\<rparr>]"
    by simp
qed

text \<open>
  C3. With \<open>test_ft_interpolation\<close> true, the flow that \<open>GkqPathFlow.from_scf_input\<close> returns
  has five works; \<open>eph_work\<close> and \<open>inteph_work\<close> are different works with the same list of
  q-point tuples, so the second loop starts from an empty seen-set. For every phonon task
  each of the two works has exactly one task with its q-point tuple, two tasks in all. The
  input of each task of \<open>inteph_work\<close> is the input of the task of \<open>eph_work\<close> at the same
  position with \<open>eph_use_ftinterp\<close> set to 1.
\<close>

theorem GkqPathFlow_seen_set_per_pass:
  assumes "GkqPathFlow_from_scf_input mk scf_input ngqpt qpath_list with_becs True = Inr fl"
  shows "length (works fl) = 5 \<and>
         wid (eph_work_of fl) \<noteq> wid (inteph_work_of fl) \<and>
         map qpt_of (tasks (inteph_work_of fl)) = map qpt_of (tasks (eph_work_of fl)) \<and>
         (\<forall>p\<in>set (gkq_phonon_tasks mk qpath_list).
            length (filter (\<lambda>t. qpt_of t = qpt_of p) (tasks (eph_work_of fl))) = 1 \<and>
            length (filter (\<lambda>t. qpt_of t = qpt_of p) (tasks (inteph_work_of fl))) = 1 \<and>
            length (filter (\<lambda>t. qpt_of t = qpt_of p) (concat (map tasks (drop 3 (works fl))))) = 2) \<and>
         (\<forall>t\<in>set (tasks (eph_work_of fl)). kind t = EphTask) \<and>
         map input (tasks (inteph_work_of fl)) =
           map (\<lambda>t. (input t)(''eph_use_ftinterp'' \<mapsto> Num 1)) (tasks (eph_work_of fl)) \<and>
         (\<forall>t\<in>set (tasks (inteph_work_of fl)).
            kind t = EphTask \<and> input t ''eph_use_ftinterp'' = Some (Num 1))"
proof -
  note w = gkq_works [OF assms] and sm = gkq_eph_summary [OF assms] and qs = gkq_qpts [OF assms]
  have len: "length (works fl) = 5"
    using w(1) by simp
  have ids: "wid (eph_work_of fl) \<noteq> wid (inteph_work_of fl)"
    by (simp add: w(5) w(6) [OF TrueI])
  have same: "map qpt_of (tasks (inteph_work_of fl)) = map qpt_of (tasks (eph_work_of fl))"
    by (simp add: qs(1) qs(2) [OF TrueI])
  have d3: "concat (map tasks (drop 3 (works fl))) = tasks (eph_work_of fl) @ tasks (inteph_work_of fl)"
    by (simp add: drop3_of_5 [OF len] eph_work_of_def inteph_work_of_def)
  have counts: "\<forall>p\<in>set (gkq_phonon_tasks mk qpath_list).
            length (filter (\<lambda>t. qpt_of t = qpt_of p) (tasks (eph_work_of fl))) = 1 \<and>
            length (filter (\<lambda>t. qpt_of t = qpt_of p) (tasks (inteph_work_of fl))) = 1 \<and>
            length (filter (\<lambda>t. qpt_of t = qpt_of p) (concat (map tasks (drop 3 (works fl))))) = 2"
  proof
    fix p assume p: "p \<in> set (gkq_phonon_tasks mk qpath_list)"
    have c1: "length (filter (\<lambda>t. qpt_of t = qpt_of p) (tasks (eph_work_of fl))) = 1"
      using count_by_qpt [OF sm(1), of "qpt_of p"] sm(2) p by simp
    have c2: "length (filter (\<lambda>t. qpt_of t = qpt_of p) (tasks (inteph_work_of fl))) = 1"
      using count_by_qpt [OF sm(3) [OF TrueI], of "qpt_of p"] sm(4) [OF TrueI] p by simp
    show "length (filter (\<lambda>t. qpt_of t = qpt_of p) (tasks (eph_work_of fl))) = 1 \<and>
            length (filter (\<lambda>t. qpt_of t = qpt_of p) (tasks (inteph_work_of fl))) = 1 \<and>
            length (filter (\<lambda>t. qpt_of t = qpt_of p) (concat (map tasks (drop 3 (works fl))))) = 2"
      unfolding d3 using c1 c2 count_append_2 [OF c1 c2] by simp
  qed
  have e1: "\<forall>t\<in>set (tasks (eph_work_of fl)). kind t = EphTask"
    by (auto simp: w(5))
  have e3: "map input (tasks (inteph_work_of fl)) =
           map (\<lambda>t. (input t)(''eph_use_ftinterp'' \<mapsto> Num 1)) (tasks (eph_work_of fl))"
    by (simp add: w(5) w(6) [OF TrueI] split_beta del: fun_upd_apply)
  have e2: "\<forall>t\<in>set (tasks (inteph_work_of fl)).
            kind t = EphTask \<and> input t ''eph_use_ftinterp'' = Some (Num 1)"
    by (auto simp: w(6) [OF TrueI])
  show ?thesis
    using len ids same counts e1 e2 e3 by blast
qed

theorem GkqPathFlow_seen_set_per_pass_witness:
  "\<exists>fl. GkqPathFlow_from_scf_input example_work_makers example_scf_input (Seq [2, 2, 2]) example_qpath
            False True = Inr fl \<and>
      length (works fl) = 5 \<and>
      map qpt_of (tasks (eph_work_of fl)) = [Some [1 / 2, 0, 0], Some [0, 0, 0]] \<and>
      map qpt_of (tasks (inteph_work_of fl)) = [Some [1 / 2, 0, 0], Some [0, 0, 0]] \<and>
      length (filter (\<lambda>t. qpt_of t = Some [1 / 2, 0, 0]) (concat (map tasks (drop 3 (works fl))))) = 2 \<and>
      length (filter (\<lambda>t. qpt_of t = Some [0, 0, 0]) (concat (map tasks (drop 3 (works fl))))) = 2"
proof -
  from gkq_result [OF example_defined, of example_scf_input "Seq [2, 2, 2]" False True]
  obtain fl where
    fl: "GkqPathFlow_from_scf_input example_work_makers example_scf_input (Seq [2, 2, 2]) example_qpath
            False True = Inr fl"
    by blast
  note c3 = GkqPathFlow_seen_set_per_pass [OF fl]
  have fs: "map fst (first_seen {} (gkq_phonon_tasks example_work_makers example_qpath)) =
              [[1 / 2, 0, 0], [0, 0, 0]]"
    by (simp add: example_phonon_tasks qpt_of_def)
  have e: "map qpt_of (tasks (eph_work_of fl)) = [Some [1 / 2, 0, 0], Some [0, 0, 0]]"
    using gkq_qpts(1) [OF fl] arg_cong [OF fs, of "map Some"] by simp
  have qs: "qpt_of ` set (gkq_phonon_tasks example_work_makers example_qpath) =
              {Some [1 / 2, 0, 0], Some [0, 0, 0]}"
    using arg_cong [OF example_qpts, of set] by (simp add: insert_commute)
  from c3 have "\<forall>k\<in>qpt_of ` set (gkq_phonon_tasks example_work_makers example_qpath).
      length (filter (\<lambda>t. qpt_of t = k) (concat (map tasks (drop 3 (works fl))))) = 2"
    by blast
  then have two: "length (filter (\<lambda>t. qpt_of t = Some [1 / 2, 0, 0]) (concat (map tasks (drop 3 (works fl))))) = 2 \<and>
      length (filter (\<lambda>t. qpt_of t = Some [0, 0, 0]) (concat (map tasks (drop 3 (works fl))))) = 2"
    unfolding qs by simp
  from c3 have "length (works fl) = 5"
    and "map qpt_of (tasks (inteph_work_of fl)) = map qpt_of (tasks (eph_work_of fl))"
    by blast+
  with fl e two show ?thesis by simp
qed

text \<open>
  C6. In the flow that \<open>GkqPathFlow.from_scf_input\<close> returns, \<open>work_qmesh\<close>, \<open>work_qpath\<close>
  and \<open>eph_work\<close> are three different works. The set of edges of every task of \<open>eph_work\<close>
  is the set of edges of the first phonon task with the same q-point tuple, united with an
  edge on \<open>work_qmesh\<close> for \<open>"DDB"\<close> and an edge on \<open>work_qpath\<close> for \<open>"DVDB"\<close>. The set of
  edges of every task of \<open>inteph_work\<close> is the set of edges of that phonon task united with
  two edges on \<open>work_qmesh\<close>, for \<open>"DDB"\<close> and for \<open>"DVDB"\<close>.
\<close>

theorem GkqPathFlow_eph_deps:
  assumes "GkqPathFlow_from_scf_input mk scf_input ngqpt qpath_list with_becs test_ft_interpolation = Inr fl"
  shows "wid (work_qmesh_of fl) \<noteq> wid (eph_work_of fl) \<and>
         wid (work_qpath_of fl) \<noteq> wid (eph_work_of fl) \<and>
         wid (work_qmesh_of fl) \<noteq> wid (work_qpath_of fl) \<and>
         (\<forall>t\<in>set (tasks (eph_work_of fl)).
            \<exists>q p. qpt_of t = Some q \<and>
              find (\<lambda>p'. qpt_of p' = Some q) (gkq_phonon_tasks mk qpath_list) = Some p \<and>
              set (edges_of (deps t)) =
                set (edges_of (deps p)) \<union>
                {(WorkRef (wid (work_qmesh_of fl)), ''DDB''), (WorkRef (wid (work_qpath_of fl)), ''DVDB'')}) \<and>
         (test_ft_interpolation \<longrightarrow>
            wid (work_qmesh_of fl) \<noteq> wid (inteph_work_of fl) \<and>
            (\<forall>t\<in>set (tasks (inteph_work_of fl)).
               \<exists>q p. qpt_of t = Some q \<and>
                 find (\<lambda>p'. qpt_of p' = Some q) (gkq_phonon_tasks mk qpath_list) = Some p \<and>
                 set (edges_of (deps t)) =
                   set (edges_of (deps p)) \<union>
                   {(WorkRef (wid (work_qmesh_of fl)), ''DDB''), (WorkRef (wid (work_qmesh_of fl)), ''DVDB'')}))"
proof -
  note w = gkq_works [OF assms]
  have ids: "wid (work_qmesh_of fl) = 1" "wid (work_qpath_of fl) = 2" "wid (eph_work_of fl) = 3"
    by (simp_all add: w(3,4,5))
  have eph: "\<forall>t\<in>set (tasks (eph_work_of fl)).
            \<exists>q p. qpt_of t = Some q \<and>
              find (\<lambda>p'. qpt_of p' = Some q) (gkq_phonon_tasks mk qpath_list) = Some p \<and>
              set (edges_of (deps t)) =
                set (edges_of (deps p)) \<union> {(WorkRef 1, ''DDB''), (WorkRef 2, ''DVDB'')}"
  proof
    fix t assume "t \<in> set (tasks (eph_work_of fl))"
    from gkq_eph_task_origin [OF assms this] obtain q p where
      "qpt_of t = Some q" "find (\<lambda>p'. qpt_of p' = Some q) (gkq_phonon_tasks mk qpath_list) = Some p"
      "deps t = deps p @ [(Obj (WorkRef 1), Str ''DDB''), (Obj (WorkRef 2), Str ''DVDB'')]"
      by blast
    then show "\<exists>q p. qpt_of t = Some q \<and>
              find (\<lambda>p'. qpt_of p' = Some q) (gkq_phonon_tasks mk qpath_list) = Some p \<and>
              set (edges_of (deps t)) =
                set (edges_of (deps p)) \<union> {(WorkRef 1, ''DDB''), (WorkRef 2, ''DVDB'')}"
      by (auto simp: edges_of_append) (auto simp: edges_of_def)
  qed
  have int: "test_ft_interpolation \<Longrightarrow> wid (inteph_work_of fl) = 4 \<and>
            (\<forall>t\<in>set (tasks (inteph_work_of fl)).
               \<exists>q p. qpt_of t = Some q \<and>
                 find (\<lambda>p'. qpt_of p' = Some q) (gkq_phonon_tasks mk qpath_list) = Some p \<and>
                 set (edges_of (deps t)) =
                   set (edges_of (deps p)) \<union> {(WorkRef 1, ''DDB''), (WorkRef 1, ''DVDB'')})"
  proof
    assume ft: "test_ft_interpolation"
    show "wid (inteph_work_of fl) = 4"
      by (simp add: w(6) [OF ft])
    show "\<forall>t\<in>set (tasks (inteph_work_of fl)).
               \<exists>q p. qpt_of t = Some q \<and>
                 find (\<lambda>p'. qpt_of p' = Some q) (gkq_phonon_tasks mk qpath_list) = Some p \<and>
                 set (edges_of (deps t)) =
                   set (edges_of (deps p)) \<union> {(WorkRef 1, ''DDB''), (WorkRef 1, ''DVDB'')}"
    proof
      fix t assume "t \<in> set (tasks (inteph_work_of fl))"
      from gkq_inteph_task_origin [OF assms [unfolded eqTrueI [OF ft]] this] obtain q p where
        "qpt_of t = Some q" "find (\<lambda>p'. qpt_of p' = Some q) (gkq_phonon_tasks mk qpath_list) = Some p"
        "deps t = deps p @ [(Obj (WorkRef 1), StrList [''DDB'', ''DVDB''])]"
        by blast
      then show "\<exists>q p. qpt_of t = Some q \<and>
                 find (\<lambda>p'. qpt_of p' = Some q) (gkq_phonon_tasks mk qpath_list) = Some p \<and>
                 set (edges_of (deps t)) =
                   set (edges_of (deps p)) \<union> {(WorkRef 1, ''DDB''), (WorkRef 1, ''DVDB'')}"
        by (auto simp: edges_of_append) (auto simp: edges_of_def)
    qed
  qed
  show ?thesis
    using eph int by (simp add: ids)
qed

theorem GkqPathFlow_eph_deps_witness:
  "\<exists>fl. GkqPathFlow_from_scf_input example_work_makers example_scf_input (Seq [2, 2, 2]) example_qpath
            False True = Inr fl \<and>
      tasks (eph_work_of fl) \<noteq> [] \<and> tasks (inteph_work_of fl) \<noteq> [] \<and>
      (\<exists>p. find (\<lambda>p'. qpt_of p' = Some [1 / 2, 0, 0]) (gkq_phonon_tasks example_work_makers example_qpath)
             = Some p \<and>
           set (edges_of (deps (hd (tasks (eph_work_of fl))))) =
             set (edges_of (deps p)) \<union> {(WorkRef 1, ''DDB''), (WorkRef 2, ''DVDB'')} \<and>
           set (edges_of (deps (hd (tasks (inteph_work_of fl))))) =
             set (edges_of (deps p)) \<union> {(WorkRef 1, ''DDB''), (WorkRef 1, ''DVDB'')})"
proof -
  from gkq_result [OF example_defined, of example_scf_input "Seq [2, 2, 2]" False True]
  obtain fl where
    fl: "GkqPathFlow_from_scf_input example_work_makers example_scf_input (Seq [2, 2, 2]) example_qpath
            False True = Inr fl"
    by blast
  note c6 = GkqPathFlow_eph_deps [OF fl]
  have ids: "wid (work_qmesh_of fl) = 1" "wid (work_qpath_of fl) = 2"
    by (simp_all add: gkq_works(3,4) [OF fl])
  have fs: "map fst (first_seen {} (gkq_phonon_tasks example_work_makers example_qpath)) =
              [[1 / 2, 0, 0], [0, 0, 0]]"
    by (simp add: example_phonon_tasks qpt_of_def)
  have e: "map qpt_of (tasks (eph_work_of fl)) = [Some [1 / 2, 0, 0], Some [0, 0, 0]]"
    using gkq_qpts(1) [OF fl] arg_cong [OF fs, of "map Some"] by simp
  have i: "map qpt_of (tasks (inteph_work_of fl)) = [Some [1 / 2, 0, 0], Some [0, 0, 0]]"
    using gkq_qpts(2) [OF fl TrueI] arg_cong [OF fs, of "map Some"] by simp
  from e obtain t1 r1 where t1: "tasks (eph_work_of fl) = t1 # r1" "qpt_of t1 = Some [1 / 2, 0, 0]"
    by (auto simp: map_eq_Cons_conv)
  from i obtain t2 r2 where t2: "tasks (inteph_work_of fl) = t2 # r2" "qpt_of t2 = Some [1 / 2, 0, 0]"
    by (auto simp: map_eq_Cons_conv)
  from c6 t1 obtain p where
    p: "find (\<lambda>p'. qpt_of p' = Some [1 / 2, 0, 0]) (gkq_phonon_tasks example_work_makers example_qpath) = Some p"
    and d1: "set (edges_of (deps t1)) = set (edges_of (deps p)) \<union> {(WorkRef 1, ''DDB''), (WorkRef 2, ''DVDB'')}"
    unfolding ids by auto
  from c6 t2 p have
    d2: "set (edges_of (deps t2)) = set (edges_of (deps p)) \<union> {(WorkRef 1, ''DDB''), (WorkRef 1, ''DVDB'')}"
    unfolding ids by auto
  show ?thesis
    using fl t1 t2 p d1 d2 by auto
qed

section \<open>The deps mappings and their artifact names\<close>

lemma alist_update_keeps:
  "k' \<noteq> k \<Longrightarrow> (k, v) \<in> set al \<Longrightarrow> (k, v) \<in> set (AList.update k' v' al)"
  by (induction al) auto

lemma dict_update_keeps:
  assumes "(k, v) \<in> set d" and "k \<notin> fst ` set other"
  shows "(k, v) \<in> set (dict_update d other)"
  using assms unfolding dict_update_def
proof (induction other arbitrary: d)
  case Nil
  then show ?case by simp
next
  case (Cons a other)
  obtain k' v' where a: "a = (k', v')" by (cases a)
  with Cons.prems have "k' \<noteq> k" "k \<notin> fst ` set other" by auto
  with Cons.prems(1) Cons.IH [of "AList.update k' v' d"] show ?case
    by (simp add: a alist_update_keeps)
qed

lemma ddk_loop_refs:
  "\<forall>r\<in>set (fst (ddk_loop wfk w acc inps)).
      r \<in> set acc \<or> (\<exists>j\<ge>length (tasks w). r = TaskRef (wid w) j)"
proof (induction inps arbitrary: w acc)
  case Nil
  then show ?case by simp
next
  case (Cons inp inps)
  let ?w = "snd (register_ddk_task w inp (Some (dict_of [(Obj wfk, Str ''WFK'')])))"
  have w': "wid ?w = wid w" "length (tasks ?w) = Suc (length (tasks w))"
    by (simp_all add: register_ddk_task_def register_task_def)
  have step: "fst (ddk_loop wfk w acc (inp # inps)) =
      fst (ddk_loop wfk ?w (acc @ [TaskRef (wid w) (length (tasks w))]) inps)"
    by (simp add: register_ddk_task_def register_task_def)
  show ?case
    unfolding step using Cons.IH [of ?w "acc @ [TaskRef (wid w) (length (tasks w))]"] w'
    by (auto intro: Suc_leD)
qed

lemma ddk_stage_keys:
  assumes "fst (ddk_stage mk scf wp wd tol wfk w) = Some d"
  shows "\<forall>k\<in>fst ` set d. \<exists>j\<ge>length (tasks w). k = Obj (TaskRef (wid w) j)"
proof -
  from assms have d: "d = dict_of (map (\<lambda>t. (Obj t, Str ''DDK''))
      (fst (ddk_loop wfk w [] (make_ddk_inputs mk scf (tol ''ddk'')))))"
    by (auto simp: ddk_stage_def Let_def split: prod.splits if_splits)
  have "set d \<subseteq> set (map (\<lambda>t. (Obj t, Str ''DDK''))
      (fst (ddk_loop wfk w [] (make_ddk_inputs mk scf (tol ''ddk'')))))"
    unfolding d by (rule set_dict_of)
  with ddk_loop_refs [of wfk w "[]" "make_ddk_inputs mk scf (tol ''ddk'')"] show ?thesis
    by fastforce
qed

lemma wfk_and_ddk_deps_wfk:
  assumes "wfk_and_ddk_deps wp wfk dd = Inr d" and "\<And>x. dd = Some x \<Longrightarrow> Obj wfk \<notin> fst ` set x"
  shows "(Obj wfk, Str ''WFK'') \<in> set d"
proof (cases wp)
  case False
  with assms(1) show ?thesis
    by (auto simp: wfk_and_ddk_deps_def Let_def dict_of_single)
next
  case True
  with assms(1) obtain x where x: "dd = Some x" and d: "d = dict_update [(Obj wfk, Str ''WFK'')] x"
    by (auto simp: wfk_and_ddk_deps_def read_local_def Let_def dict_of_single split: option.splits)
  show ?thesis
    unfolding d by (rule dict_update_keeps) (simp_all add: assms(2) [OF x])
qed

lemma ddk_stage_wfk:
  "\<exists>new. tasks (snd (ddk_stage mk scf wp wd tol wfk w)) = tasks w @ new \<and>
     (\<forall>t\<in>set new. (Obj wfk, Str ''WFK'') \<in> set (deps t))"
proof (cases "wp \<or> wd")
  case True
  have "snd (ddk_stage mk scf wp wd tol wfk w) =
          snd (ddk_loop wfk w [] (make_ddk_inputs mk scf (tol ''ddk'')))"
    using True by (simp add: ddk_stage_def Let_def split: prod.splits)
  then show ?thesis
    by (auto simp: ddk_loop_tasks)
next
  case False
  then show ?thesis by (simp add: ddk_stage_def)
qed

lemma dde_stage_wfk:
  assumes "dde_stage mk scf wd tol wfk dd w = Inr w'" and "\<And>x. dd = Some x \<Longrightarrow> Obj wfk \<notin> fst ` set x"
  shows "\<exists>new. tasks w' = tasks w @ new \<and> (\<forall>t\<in>set new. (Obj wfk, Str ''WFK'') \<in> set (deps t))"
proof (cases wd)
  case False
  with assms(1) show ?thesis by (simp add: dde_stage_def)
next
  case True
  with assms(1) obtain x where x: "dd = Some x"
    and w': "w' = register_all register_dde_task (dict_update [(Obj wfk, Str ''WFK'')] x) w
                    (make_dde_inputs mk scf (tol ''dde'') True)"
    by (auto simp: dde_stage_def read_local_def Let_def dict_of_single split: option.splits)
  have "(Obj wfk, Str ''WFK'') \<in> set (dict_update [(Obj wfk, Str ''WFK'')] x)"
    by (rule dict_update_keeps) (simp_all add: assms(2) [OF x])
  then show ?thesis
    by (auto simp: w' register_all_dde)
qed

lemma phonon_stage_wfk:
  assumes "phonon_stage wri wp wfk dd sm w = Inr w'" and "\<And>x. dd = Some x \<Longrightarrow> Obj wfk \<notin> fst ` set x"
  shows "\<exists>new. tasks w' = tasks w @ new \<and> (\<forall>t\<in>set new. (Obj wfk, Str ''WFK'') \<in> set (deps t))"
proof (cases wri)
  case False
  with assms(1) show ?thesis by (simp add: phonon_stage_def)
next
  case True
  with assms(1) obtain d where d: "wfk_and_ddk_deps wp wfk dd = Inr d"
    and w': "w' = register_all register_phonon_task d w (filter (\<lambda>inp. get_var inp ''rfphon'' (Num 0) = Num 1) sm)"
    by (auto simp: phonon_stage_def split: sum.splits)
  from wfk_and_ddk_deps_wfk [OF d assms(2)] show ?thesis
    by (auto simp: w' register_all_phonon)
qed

lemma elastic_stage_wfk:
  assumes "elastic_stage wp wfk dd sm w = Inr w'" and "\<And>x. dd = Some x \<Longrightarrow> Obj wfk \<notin> fst ` set x"
  shows "\<exists>new. tasks w' = tasks w @ new \<and> (\<forall>t\<in>set new. (Obj wfk, Str ''WFK'') \<in> set (deps t))"
proof -
  from assms(1) obtain d where d: "wfk_and_ddk_deps wp wfk dd = Inr d"
    and w': "w' = register_all register_elastic_task d w (filter (\<lambda>inp. get_var inp ''rfstrs'' (Num 0) \<noteq> Num 0) sm)"
    by (auto simp: elastic_stage_def split: sum.splits)
  from wfk_and_ddk_deps_wfk [OF d assms(2)] show ?thesis
    by (auto simp: w' register_all_elastic)
qed

lemma elastic_rest_wfk:
  assumes "ElasticWork_from_scf_input mk i scf wri wp wd tol dd = Inr w"
  shows "\<forall>t\<in>set (tl (tasks w)). (Obj (TaskRef i 0), Str ''WFK'') \<in> set (deps t)"
proof -
  from elastic_Inr_stages [OF assms] obtain T wfk w1 dk w2 sm w3 w4 where
    s1: "wfk_stage mk scf T dd (Work i) = Inr (wfk, w1)" and
    dk: "dk = fst (ddk_stage mk scf wp wd T wfk w1)" and
    w2: "w2 = snd (ddk_stage mk scf wp wd T wfk w1)" and
    s3: "dde_stage mk scf wd T wfk dk w2 = Inr w3" and
    s4: "phonon_stage wri wp wfk dk sm w3 = Inr w4" and
    s5: "elastic_stage wp wfk dk sm w4 = Inr w"
    by blast
  from wfk_stage_Inr [OF s1] obtain first where
    wfk: "wfk = TaskRef i 0" and w1: "wid w1 = i" "tasks w1 = [first]"
    by (auto simp: Work_def)
  have dk_ok: "\<And>x. dk = Some x \<Longrightarrow> Obj wfk \<notin> fst ` set x"
  proof
    fix x assume x: "dk = Some x" and "Obj wfk \<in> fst ` set x"
    with ddk_stage_keys [OF x [unfolded dk]] w1 obtain j where "j \<ge> 1" "Obj wfk = Obj (TaskRef i j)"
      by auto
    with wfk show False by simp
  qed
  obtain n2 where n2: "tasks w2 = tasks w1 @ n2" "\<forall>t\<in>set n2. (Obj wfk, Str ''WFK'') \<in> set (deps t)"
    using ddk_stage_wfk [of mk scf wp wd T wfk w1] unfolding w2 by blast
  from dde_stage_wfk [OF s3 dk_ok] obtain n3 where
    n3: "tasks w3 = tasks w2 @ n3" "\<forall>t\<in>set n3. (Obj wfk, Str ''WFK'') \<in> set (deps t)"
    by blast
  from phonon_stage_wfk [OF s4 dk_ok] obtain n4 where
    n4: "tasks w4 = tasks w3 @ n4" "\<forall>t\<in>set n4. (Obj wfk, Str ''WFK'') \<in> set (deps t)"
    by blast
  from elastic_stage_wfk [OF s5 dk_ok] obtain n5 where
    n5: "tasks w = tasks w4 @ n5" "\<forall>t\<in>set n5. (Obj wfk, Str ''WFK'') \<in> set (deps t)"
    by blast
  have "tl (tasks w) = n2 @ n3 @ n4 @ n5"
    by (simp add: n5 n4 n3 n2 w1)
  with n2 n3 n4 n5 show ?thesis
    unfolding wfk by auto
qed

lemma edges_of_mem: "(Obj n, Str a) \<in> set d \<Longrightarrow> (n, a) \<in> set (edges_of d)"
  by (force simp: edges_of_def)

lemma elastic_item_edges:
  assumes "list_all elastic_item d"
  shows "snd ` set (edges_of d) \<subseteq> {''WFK'', ''DDK''}"
proof
  fix a assume "a \<in> snd ` set (edges_of d)"
  then obtain n it where it: "it \<in> set d" and e: "(n, a) \<in> set (edges_of_item it)"
    by (auto simp: edges_of_def)
  from assms it have "elastic_item it" by (simp add: list_all_iff)
  with e show "a \<in> {''WFK'', ''DDK''}"
    by (cases it rule: elastic_item.cases) auto
qed

text \<open>
  C4 as the spec states it fails: in the dict displays \<open>{wfk_task: "WFK"}\<close> and
  \<open>{ddk_task: "DDK" for ddk_task in ddk_tasks}\<close> the key is the producer task and the value
  the artifact name, not the other way round.
\<close>

theorem deps_spec_shape_counterexample:
  "\<not> isl (ElasticWork_from_scf_input example_makers 0 example_scf_input False True False None None) \<and>
   map deps (tasks (projr
     (ElasticWork_from_scf_input example_makers 0 example_scf_input False True False None None))) =
     [[], [(Obj (TaskRef 0 0), Str ''WFK'')],
      [(Obj (TaskRef 0 0), Str ''WFK''), (Obj (TaskRef 0 1), Str ''DDK'')]] \<and>
   \<not> list_all spec_deps_item [(Obj (TaskRef 0 0), Str ''WFK'')] \<and>
   \<not> list_all spec_deps_item [(Obj (TaskRef 0 0), Str ''WFK''), (Obj (TaskRef 0 1), Str ''DDK'')]"
  by (simp add: example_elastic_run)

text \<open>
  C4, amended. Every \<open>deps\<close> mapping that the source builds maps a producer (a Task or a
  Work) to an artifact name, or to a list of artifact names. In the Work that
  \<open>ElasticWork.from_scf_input\<close> returns, the first task has the dependencies \<open>den_deps\<close> of
  the caller (none when \<open>den_deps\<close> is None) and every other task has items of that shape
  only. In the flow that \<open>GkqPathFlow.from_scf_input\<close> returns, the dependencies of every
  task of \<open>eph_work\<close> and of \<open>inteph_work\<close> are the dependencies of a phonon task followed
  by items of that shape.
\<close>

theorem deps_producer_to_artifacts:
  "(ElasticWork_from_scf_input mk new_wid scf_input with_relaxed_ion with_piezo with_dde tolerances
        den_deps = Inr w \<longrightarrow>
      tasks w \<noteq> [] \<and>
      deps (hd (tasks w)) = (case den_deps of None \<Rightarrow> [] | Some d \<Rightarrow> d) \<and>
      (\<forall>t\<in>set (tl (tasks w)). list_all producer_item (deps t))) \<and>
   (GkqPathFlow_from_scf_input wmk scf_input ngqpt qpath_list with_becs test_ft_interpolation = Inr fl \<longrightarrow>
      (\<forall>t\<in>set (tasks (eph_work_of fl)).
         \<exists>p\<in>set (gkq_phonon_tasks wmk qpath_list). \<exists>added.
           deps t = deps p @ added \<and> added \<noteq> [] \<and> list_all producer_item added) \<and>
      (test_ft_interpolation \<longrightarrow>
         (\<forall>t\<in>set (tasks (inteph_work_of fl)).
            \<exists>p\<in>set (gkq_phonon_tasks wmk qpath_list). \<exists>added.
              deps t = deps p @ added \<and> added \<noteq> [] \<and> list_all producer_item added)))"
proof (intro conjI impI)
  assume run: "ElasticWork_from_scf_input mk new_wid scf_input with_relaxed_ion with_piezo with_dde
      tolerances den_deps = Inr w"
  from elastic_first_deps [OF run]
  show "tasks w \<noteq> []" and "deps (hd (tasks w)) = (case den_deps of None \<Rightarrow> [] | Some d \<Rightarrow> d)"
    by simp_all
  show "\<forall>t\<in>set (tl (tasks w)). list_all producer_item (deps t)"
    using elastic_rest_items [OF run] elastic_item_producer
    by (auto simp: list_all_iff)
next
  assume run: "GkqPathFlow_from_scf_input wmk scf_input ngqpt qpath_list with_becs test_ft_interpolation = Inr fl"
  show "\<forall>t\<in>set (tasks (eph_work_of fl)).
         \<exists>p\<in>set (gkq_phonon_tasks wmk qpath_list). \<exists>added.
           deps t = deps p @ added \<and> added \<noteq> [] \<and> list_all producer_item added"
  proof
    fix t assume "t \<in> set (tasks (eph_work_of fl))"
    from gkq_eph_task_origin [OF run this] obtain q p where
      f: "find (\<lambda>p'. qpt_of p' = Some q) (gkq_phonon_tasks wmk qpath_list) = Some p" and
      d: "deps t = deps p @ [(Obj (WorkRef 1), Str ''DDB''), (Obj (WorkRef 2), Str ''DVDB'')]"
      by blast
    from f have "p \<in> set (gkq_phonon_tasks wmk qpath_list)"
      by (auto simp: find_Some_iff)
    with d show "\<exists>p\<in>set (gkq_phonon_tasks wmk qpath_list). \<exists>added.
           deps t = deps p @ added \<and> added \<noteq> [] \<and> list_all producer_item added"
      by (intro bexI [of _ p] exI [of _ "[(Obj (WorkRef 1), Str ''DDB''), (Obj (WorkRef 2), Str ''DVDB'')]"])
         simp_all
  qed
  assume ft: test_ft_interpolation
  show "\<forall>t\<in>set (tasks (inteph_work_of fl)).
            \<exists>p\<in>set (gkq_phonon_tasks wmk qpath_list). \<exists>added.
              deps t = deps p @ added \<and> added \<noteq> [] \<and> list_all producer_item added"
  proof
    fix t assume "t \<in> set (tasks (inteph_work_of fl))"
    from gkq_inteph_task_origin [OF run [unfolded eqTrueI [OF ft]] this] obtain q p where
      f: "find (\<lambda>p'. qpt_of p' = Some q) (gkq_phonon_tasks wmk qpath_list) = Some p" and
      d: "deps t = deps p @ [(Obj (WorkRef 1), StrList [''DDB'', ''DVDB''])]"
      by blast
    from f have "p \<in> set (gkq_phonon_tasks wmk qpath_list)"
      by (auto simp: find_Some_iff)
    with d show "\<exists>p\<in>set (gkq_phonon_tasks wmk qpath_list). \<exists>added.
           deps t = deps p @ added \<and> added \<noteq> [] \<and> list_all producer_item added"
      by (intro bexI [of _ p] exI [of _ "[(Obj (WorkRef 1), StrList [''DDB'', ''DVDB''])]"])
         simp_all
  qed
qed

theorem deps_producer_to_artifacts_witness:
  "(\<exists>w. ElasticWork_from_scf_input example_makers 0 example_scf_input False True False None None = Inr w \<and>
      map deps (tl (tasks w)) =
        [[(Obj (TaskRef 0 0), Str ''WFK'')],
         [(Obj (TaskRef 0 0), Str ''WFK''), (Obj (TaskRef 0 1), Str ''DDK'')]] \<and>
      list_all (\<lambda>t. list_all producer_item (deps t)) (tl (tasks w))) \<and>
   (\<exists>fl. GkqPathFlow_from_scf_input example_work_makers example_scf_input (Seq [2, 2, 2]) example_qpath
            False True = Inr fl \<and>
      tasks (eph_work_of fl) \<noteq> [] \<and> tasks (inteph_work_of fl) \<noteq> [] \<and>
      list_all (\<lambda>t. \<exists>p\<in>set (gkq_phonon_tasks example_work_makers example_qpath). \<exists>added.
           deps t = deps p @ added \<and> added \<noteq> [] \<and> list_all producer_item added)
        (tasks (eph_work_of fl) @ tasks (inteph_work_of fl)))"
proof (intro conjI)
  note run = example_elastic_run
  from deps_producer_to_artifacts [THEN conjunct1, rule_format, OF run]
  have "\<forall>t\<in>set (tl (tasks \<lparr>wid = 0,
          tasks = [\<lparr>kind = ScfTask, input = example_scf_input, deps = [], status = Init\<rparr>,
                   \<lparr>kind = DdkTask, input = example_scf_input(''rfddk'' \<mapsto> Num 1),
                     deps = [(Obj (TaskRef 0 0), Str ''WFK'')], status = Init\<rparr>,
                   \<lparr>kind = ElasticTask, input = example_scf_input(''rfstrs'' \<mapsto> Num 3),
                     deps = [(Obj (TaskRef 0 0), Str ''WFK''), (Obj (TaskRef 0 1), Str ''DDK'')],
                     status = Init\<rparr>]\<rparr>)). list_all producer_item (deps t)"
    by blast
  then show "\<exists>w. ElasticWork_from_scf_input example_makers 0 example_scf_input False True False None None = Inr w \<and>
      map deps (tl (tasks w)) =
        [[(Obj (TaskRef 0 0), Str ''WFK'')],
         [(Obj (TaskRef 0 0), Str ''WFK''), (Obj (TaskRef 0 1), Str ''DDK'')]] \<and>
      list_all (\<lambda>t. list_all producer_item (deps t)) (tl (tasks w))"
    unfolding run by (simp add: list_all_iff del: fun_upd_apply)
next
  from gkq_result [OF example_defined, of example_scf_input "Seq [2, 2, 2]" False True]
  obtain fl where
    fl: "GkqPathFlow_from_scf_input example_work_makers example_scf_input (Seq [2, 2, 2]) example_qpath
            False True = Inr fl"
    by blast
  have fs: "map fst (first_seen {} (gkq_phonon_tasks example_work_makers example_qpath)) =
              [[1 / 2, 0, 0], [0, 0, 0]]"
    by (simp add: example_phonon_tasks qpt_of_def)
  have "length (map qpt_of (tasks (eph_work_of fl))) = 2"
    unfolding gkq_qpts(1) [OF fl] using arg_cong [OF fs, of length] by simp
  moreover have "length (map qpt_of (tasks (inteph_work_of fl))) = 2"
    unfolding gkq_qpts(2) [OF fl TrueI] using arg_cong [OF fs, of length] by simp
  ultimately have ne: "tasks (eph_work_of fl) \<noteq> []" "tasks (inteph_work_of fl) \<noteq> []"
    by auto
  from deps_producer_to_artifacts [THEN conjunct2, rule_format, OF fl]
  have "list_all (\<lambda>t. \<exists>p\<in>set (gkq_phonon_tasks example_work_makers example_qpath). \<exists>added.
           deps t = deps p @ added \<and> added \<noteq> [] \<and> list_all producer_item added)
        (tasks (eph_work_of fl) @ tasks (inteph_work_of fl))"
    by (auto simp: list_all_iff)
  with fl ne show "\<exists>fl. GkqPathFlow_from_scf_input example_work_makers example_scf_input (Seq [2, 2, 2]) example_qpath
            False True = Inr fl \<and>
      tasks (eph_work_of fl) \<noteq> [] \<and> tasks (inteph_work_of fl) \<noteq> [] \<and>
      list_all (\<lambda>t. \<exists>p\<in>set (gkq_phonon_tasks example_work_makers example_qpath). \<exists>added.
           deps t = deps p @ added \<and> added \<noteq> [] \<and> list_all producer_item added)
        (tasks (eph_work_of fl) @ tasks (inteph_work_of fl))"
    by blast
qed

text \<open>
  C5 as the spec states it fails: with \<open>den_deps = {task: "DEN"}\<close> the first task that
  \<open>ElasticWork.from_scf_input\<close> registers has an edge for the artifact \<open>"DEN"\<close>, which is
  not in the vocabulary.
\<close>

theorem artifact_vocabulary_counterexample:
  "\<not> isl (ElasticWork_from_scf_input example_makers 0 example_scf_input True False False None
            (Some example_den_deps)) \<and>
   edges_of (deps (hd (tasks (projr
     (ElasticWork_from_scf_input example_makers 0 example_scf_input True False False None
            (Some example_den_deps)))))) = [(TaskRef 7 0, ''DEN'')] \<and>
   ''DEN'' \<notin> vocabulary"
proof -
  obtain w where
    w: "ElasticWork_from_scf_input example_makers 0 example_scf_input True False False None
            (Some example_den_deps) = Inr w"
    using elastic_returns [where scf = example_scf_input and tol = None
        and dd = "Some example_den_deps" and i = 0 and mk = example_makers and wri = True
        and wp = False and wd = False]
    by (auto simp: wfk_stage_def register_nscf_task_def register_task_def Work_def)
  from elastic_first_deps [OF w] have "deps (hd (tasks w)) = example_den_deps"
    by simp
  moreover from w have
    "\<not> isl (ElasticWork_from_scf_input example_makers 0 example_scf_input True False False None
            (Some example_den_deps))"
    "projr (ElasticWork_from_scf_input example_makers 0 example_scf_input True False False None
            (Some example_den_deps)) = w"
    by simp_all
  ultimately show ?thesis
    by (simp add: example_den_deps_def edges_of_def vocabulary_def)
qed

text \<open>
  C5, amended. The dependency edges that \<open>ElasticWork.from_scf_input\<close> and
  \<open>GkqPathFlow.from_scf_input\<close> build themselves label their artifact with a name of the
  vocabulary \<open>{"WFK", "DDK", "DDB", "DVDB"}\<close>, and the dependencies handed in are registered as
  they are. In the Work of \<open>ElasticWork.from_scf_input\<close> the first task has exactly the
  dependencies \<open>den_deps\<close> (none when it is None); every other task has the edge on the first
  task for \<open>"WFK"\<close>, and all its edges are for \<open>"WFK"\<close> or \<open>"DDK"\<close>. In the flow of
  \<open>GkqPathFlow.from_scf_input\<close> the SCF task has no dependency, and the dependencies of a task
  of \<open>eph_work\<close> or \<open>inteph_work\<close> are those of an upstream phonon task, unchanged, followed
  by built ones whose artifact names are exactly \<open>"DDB"\<close> and \<open>"DVDB"\<close>.
\<close>

theorem artifact_vocabulary:
  "(ElasticWork_from_scf_input mk new_wid scf_input with_relaxed_ion with_piezo with_dde tolerances
        den_deps = Inr w \<longrightarrow>
      tasks w \<noteq> [] \<and>
      deps (hd (tasks w)) = (case den_deps of None \<Rightarrow> [] | Some d \<Rightarrow> d) \<and>
      (\<forall>t\<in>set (tl (tasks w)).
         (TaskRef new_wid 0, ''WFK'') \<in> set (edges_of (deps t)) \<and>
         snd ` set (edges_of (deps t)) \<subseteq> {''WFK'', ''DDK''} \<and>
         snd ` set (edges_of (deps t)) \<subseteq> vocabulary)) \<and>
   (GkqPathFlow_from_scf_input wmk scf_input ngqpt qpath_list with_becs test_ft_interpolation = Inr fl \<longrightarrow>
      (\<forall>t\<in>set (tasks (works fl ! 0)). deps t = []) \<and>
      (\<forall>t\<in>set (tasks (eph_work_of fl)).
         \<exists>p\<in>set (gkq_phonon_tasks wmk qpath_list). \<exists>built.
           deps t = deps p @ built \<and>
           edges_of (deps t) = edges_of (deps p) @ edges_of built \<and>
           snd ` set (edges_of built) = {''DDB'', ''DVDB''} \<and>
           snd ` set (edges_of built) \<subseteq> vocabulary) \<and>
      (test_ft_interpolation \<longrightarrow>
         (\<forall>t\<in>set (tasks (inteph_work_of fl)).
            \<exists>p\<in>set (gkq_phonon_tasks wmk qpath_list). \<exists>built.
              deps t = deps p @ built \<and>
              edges_of (deps t) = edges_of (deps p) @ edges_of built \<and>
              snd ` set (edges_of built) = {''DDB'', ''DVDB''} \<and>
              snd ` set (edges_of built) \<subseteq> vocabulary)))"
proof (intro conjI impI)
  assume run: "ElasticWork_from_scf_input mk new_wid scf_input with_relaxed_ion with_piezo with_dde
      tolerances den_deps = Inr w"
  from elastic_first_deps [OF run]
  show "tasks w \<noteq> []" and "deps (hd (tasks w)) = (case den_deps of None \<Rightarrow> [] | Some d \<Rightarrow> d)"
    by simp_all
  show "\<forall>t\<in>set (tl (tasks w)).
         (TaskRef new_wid 0, ''WFK'') \<in> set (edges_of (deps t)) \<and>
         snd ` set (edges_of (deps t)) \<subseteq> {''WFK'', ''DDK''} \<and>
         snd ` set (edges_of (deps t)) \<subseteq> vocabulary"
  proof
    fix t assume t: "t \<in> set (tl (tasks w))"
    from elastic_rest_wfk [OF run] t have "(TaskRef new_wid 0, ''WFK'') \<in> set (edges_of (deps t))"
      by (auto intro: edges_of_mem)
    moreover from elastic_rest_items [OF run] t
    have names: "snd ` set (edges_of (deps t)) \<subseteq> {''WFK'', ''DDK''}"
      by (auto dest!: elastic_item_edges)
    moreover from names have "snd ` set (edges_of (deps t)) \<subseteq> vocabulary"
      by (auto simp: vocabulary_def)
    ultimately show "(TaskRef new_wid 0, ''WFK'') \<in> set (edges_of (deps t)) \<and>
         snd ` set (edges_of (deps t)) \<subseteq> {''WFK'', ''DDK''} \<and>
         snd ` set (edges_of (deps t)) \<subseteq> vocabulary"
      by blast
  qed
next
  assume run: "GkqPathFlow_from_scf_input wmk scf_input ngqpt qpath_list with_becs test_ft_interpolation = Inr fl"
  show "\<forall>t\<in>set (tasks (works fl ! 0)). deps t = []"
    by (simp add: gkq_works(2) [OF run])
  show "\<forall>t\<in>set (tasks (eph_work_of fl)).
         \<exists>p\<in>set (gkq_phonon_tasks wmk qpath_list). \<exists>built.
           deps t = deps p @ built \<and>
           edges_of (deps t) = edges_of (deps p) @ edges_of built \<and>
           snd ` set (edges_of built) = {''DDB'', ''DVDB''} \<and>
           snd ` set (edges_of built) \<subseteq> vocabulary"
  proof
    fix t assume "t \<in> set (tasks (eph_work_of fl))"
    from gkq_eph_task_origin [OF run this] obtain q p where
      f: "find (\<lambda>p'. qpt_of p' = Some q) (gkq_phonon_tasks wmk qpath_list) = Some p" and
      d: "deps t = deps p @ [(Obj (WorkRef 1), Str ''DDB''), (Obj (WorkRef 2), Str ''DVDB'')]"
      by blast
    from f have p: "p \<in> set (gkq_phonon_tasks wmk qpath_list)"
      by (auto simp: find_Some_iff)
    have b: "edges_of [(Obj (WorkRef 1), Str ''DDB''), (Obj (WorkRef 2), Str ''DVDB'')] =
               [(WorkRef 1, ''DDB''), (WorkRef 2, ''DVDB'')]"
      by (simp add: edges_of_def)
    show "\<exists>p\<in>set (gkq_phonon_tasks wmk qpath_list). \<exists>built.
           deps t = deps p @ built \<and>
           edges_of (deps t) = edges_of (deps p) @ edges_of built \<and>
           snd ` set (edges_of built) = {''DDB'', ''DVDB''} \<and>
           snd ` set (edges_of built) \<subseteq> vocabulary"
      using p d
      by (intro bexI [of _ p] exI [of _ "[(Obj (WorkRef 1), Str ''DDB''), (Obj (WorkRef 2), Str ''DVDB'')]"])
         (auto simp: edges_of_append edges_of_def vocabulary_def)
  qed
  assume ft: test_ft_interpolation
  show "\<forall>t\<in>set (tasks (inteph_work_of fl)).
            \<exists>p\<in>set (gkq_phonon_tasks wmk qpath_list). \<exists>built.
              deps t = deps p @ built \<and>
              edges_of (deps t) = edges_of (deps p) @ edges_of built \<and>
              snd ` set (edges_of built) = {''DDB'', ''DVDB''} \<and>
              snd ` set (edges_of built) \<subseteq> vocabulary"
  proof
    fix t assume "t \<in> set (tasks (inteph_work_of fl))"
    from gkq_inteph_task_origin [OF run [unfolded eqTrueI [OF ft]] this] obtain q p where
      f: "find (\<lambda>p'. qpt_of p' = Some q) (gkq_phonon_tasks wmk qpath_list) = Some p" and
      d: "deps t = deps p @ [(Obj (WorkRef 1), StrList [''DDB'', ''DVDB''])]"
      by blast
    from f have p: "p \<in> set (gkq_phonon_tasks wmk qpath_list)"
      by (auto simp: find_Some_iff)
    have b: "edges_of [(Obj (WorkRef 1), StrList [''DDB'', ''DVDB''])] =
               [(WorkRef 1, ''DDB''), (WorkRef 1, ''DVDB'')]"
      by (simp add: edges_of_def)
    show "\<exists>p\<in>set (gkq_phonon_tasks wmk qpath_list). \<exists>built.
           deps t = deps p @ built \<and>
           edges_of (deps t) = edges_of (deps p) @ edges_of built \<and>
           snd ` set (edges_of built) = {''DDB'', ''DVDB''} \<and>
           snd ` set (edges_of built) \<subseteq> vocabulary"
      using p d
      by (intro bexI [of _ p] exI [of _ "[(Obj (WorkRef 1), StrList [''DDB'', ''DVDB''])]"])
         (auto simp: edges_of_append edges_of_def vocabulary_def)
  qed
qed

theorem artifact_vocabulary_witness:
  "(\<exists>w. ElasticWork_from_scf_input example_makers 0 example_scf_input True True True None
            (Some example_den_deps) = Inr w \<and>
      edges_of (deps (hd (tasks w))) = [(TaskRef 7 0, ''DEN'')]) \<and>
   (\<exists>w. ElasticWork_from_scf_input example_makers 0 example_scf_input False True False None None = Inr w \<and>
      map (\<lambda>t. edges_of (deps t)) (tl (tasks w)) =
        [[(TaskRef 0 0, ''WFK'')], [(TaskRef 0 0, ''WFK''), (TaskRef 0 1, ''DDK'')]] \<and>
      list_all (\<lambda>t. (TaskRef 0 0, ''WFK'') \<in> set (edges_of (deps t)) \<and>
                     snd ` set (edges_of (deps t)) \<subseteq> vocabulary) (tl (tasks w))) \<and>
   (\<exists>fl. GkqPathFlow_from_scf_input example_work_makers example_scf_input (Seq [2, 2, 2]) example_qpath
            False True = Inr fl \<and>
      tasks (eph_work_of fl) \<noteq> [] \<and> tasks (inteph_work_of fl) \<noteq> [] \<and>
      list_all (\<lambda>t. \<exists>p\<in>set (gkq_phonon_tasks example_work_makers example_qpath). \<exists>built.
           deps t = deps p @ built \<and>
           edges_of (deps t) = edges_of (deps p) @ edges_of built \<and>
           snd ` set (edges_of built) = {''DDB'', ''DVDB''} \<and>
           snd ` set (edges_of built) \<subseteq> vocabulary)
        (tasks (eph_work_of fl) @ tasks (inteph_work_of fl)))"
proof (intro conjI)
  obtain w where
    w: "ElasticWork_from_scf_input example_makers 0 example_scf_input True True True None
            (Some example_den_deps) = Inr w"
    using elastic_returns [where scf = example_scf_input and tol = None
        and dd = "Some example_den_deps" and i = 0 and mk = example_makers and wri = True
        and wp = True and wd = True]
    by (auto simp: wfk_stage_def register_nscf_task_def register_task_def Work_def)
  from artifact_vocabulary [THEN conjunct1, rule_format, OF w]
  have "deps (hd (tasks w)) = example_den_deps"
    by simp
  then have "edges_of (deps (hd (tasks w))) = [(TaskRef 7 0, ''DEN'')]"
    by (simp add: example_den_deps_def edges_of_def)
  with w show "\<exists>w. ElasticWork_from_scf_input example_makers 0 example_scf_input True True True None
            (Some example_den_deps) = Inr w \<and>
      edges_of (deps (hd (tasks w))) = [(TaskRef 7 0, ''DEN'')]"
    by blast
next
  note run = example_elastic_run
  from artifact_vocabulary [THEN conjunct1, rule_format, OF run]
  have "\<forall>t\<in>set (tl (tasks \<lparr>wid = 0,
          tasks = [\<lparr>kind = ScfTask, input = example_scf_input, deps = [], status = Init\<rparr>,
                   \<lparr>kind = DdkTask, input = example_scf_input(''rfddk'' \<mapsto> Num 1),
                     deps = [(Obj (TaskRef 0 0), Str ''WFK'')], status = Init\<rparr>,
                   \<lparr>kind = ElasticTask, input = example_scf_input(''rfstrs'' \<mapsto> Num 3),
                     deps = [(Obj (TaskRef 0 0), Str ''WFK''), (Obj (TaskRef 0 1), Str ''DDK'')],
                     status = Init\<rparr>]\<rparr>)).
         (TaskRef 0 0, ''WFK'') \<in> set (edges_of (deps t)) \<and>
         snd ` set (edges_of (deps t)) \<subseteq> vocabulary"
    by blast
  then show "\<exists>w. ElasticWork_from_scf_input example_makers 0 example_scf_input False True False None None = Inr w \<and>
      map (\<lambda>t. edges_of (deps t)) (tl (tasks w)) =
        [[(TaskRef 0 0, ''WFK'')], [(TaskRef 0 0, ''WFK''), (TaskRef 0 1, ''DDK'')]] \<and>
      list_all (\<lambda>t. (TaskRef 0 0, ''WFK'') \<in> set (edges_of (deps t)) \<and>
                     snd ` set (edges_of (deps t)) \<subseteq> vocabulary) (tl (tasks w))"
    unfolding run by (simp add: list_all_iff edges_of_def del: fun_upd_apply)
next
  from gkq_result [OF example_defined, of example_scf_input "Seq [2, 2, 2]" False True]
  obtain fl where
    fl: "GkqPathFlow_from_scf_input example_work_makers example_scf_input (Seq [2, 2, 2]) example_qpath
            False True = Inr fl"
    by blast
  have fs: "map fst (first_seen {} (gkq_phonon_tasks example_work_makers example_qpath)) =
              [[1 / 2, 0, 0], [0, 0, 0]]"
    by (simp add: example_phonon_tasks qpt_of_def)
  have "length (map qpt_of (tasks (eph_work_of fl))) = 2"
    unfolding gkq_qpts(1) [OF fl] using arg_cong [OF fs, of length] by simp
  moreover have "length (map qpt_of (tasks (inteph_work_of fl))) = 2"
    unfolding gkq_qpts(2) [OF fl TrueI] using arg_cong [OF fs, of length] by simp
  ultimately have ne: "tasks (eph_work_of fl) \<noteq> []" "tasks (inteph_work_of fl) \<noteq> []"
    by auto
  from artifact_vocabulary [THEN conjunct2, rule_format, OF fl]
  have "list_all (\<lambda>t. \<exists>p\<in>set (gkq_phonon_tasks example_work_makers example_qpath). \<exists>built.
           deps t = deps p @ built \<and>
           edges_of (deps t) = edges_of (deps p) @ edges_of built \<and>
           snd ` set (edges_of built) = {''DDB'', ''DVDB''} \<and>
           snd ` set (edges_of built) \<subseteq> vocabulary)
        (tasks (eph_work_of fl) @ tasks (inteph_work_of fl))"
    unfolding list_all_iff set_append ball_Un by blast
  with fl ne show "\<exists>fl. GkqPathFlow_from_scf_input example_work_makers example_scf_input (Seq [2, 2, 2]) example_qpath
            False True = Inr fl \<and>
      tasks (eph_work_of fl) \<noteq> [] \<and> tasks (inteph_work_of fl) \<noteq> [] \<and>
      list_all (\<lambda>t. \<exists>p\<in>set (gkq_phonon_tasks example_work_makers example_qpath). \<exists>built.
           deps t = deps p @ built \<and>
           edges_of (deps t) = edges_of (deps p) @ edges_of built \<and>
           snd ` set (edges_of built) = {''DDB'', ''DVDB''} \<and>
           snd ` set (edges_of built) \<subseteq> vocabulary)
        (tasks (eph_work_of fl) @ tasks (inteph_work_of fl))"
    by blast
qed

end
